theory Spec2Isabelle
  imports Complex_Main "HOL-Library.AList"
begin

section \<open>Numbers, cells and tables\<close>

text \<open>
  The repository is Python on top of pandas and numpy. A numeric cell is a binary64
  float. The development keeps the special values of IEEE arithmetic (the two
  infinities and NaN, which pandas uses for a missing cell) and takes the finite values
  as real numbers. The arithmetic below follows what numpy computes on the special
  values; in particular a division by zero is not an exception, it gives an infinity or
  NaN. The operations \<open>fadd\<close>, \<open>fmul\<close> and \<open>fdiv\<close> are exact on finite values and are used
  where a property is an order or a special value, which rounding keeps; the sum of the
  cost columns, whose exactness is a property of its own, uses the rounded addition
  \<open>fadd64\<close>. The sign of zero is not modelled.
\<close>

datatype fl = Fin real | PInf | NInf | NaN

fun fneg :: "fl \<Rightarrow> fl" where
  "fneg (Fin a) = Fin (- a)"
| "fneg PInf = NInf"
| "fneg NInf = PInf"
| "fneg NaN = NaN"

fun fadd :: "fl \<Rightarrow> fl \<Rightarrow> fl" where
  "fadd (Fin a) (Fin b) = Fin (a + b)"
| "fadd (Fin a) PInf = PInf"
| "fadd (Fin a) NInf = NInf"
| "fadd (Fin a) NaN = NaN"
| "fadd PInf (Fin b) = PInf"
| "fadd PInf PInf = PInf"
| "fadd PInf NInf = NaN"
| "fadd PInf NaN = NaN"
| "fadd NInf (Fin b) = NInf"
| "fadd NInf PInf = NaN"
| "fadd NInf NInf = NInf"
| "fadd NInf NaN = NaN"
| "fadd NaN y = NaN"

definition fsub :: "fl \<Rightarrow> fl \<Rightarrow> fl" where
  "fsub x y = fadd x (fneg y)"

fun fmul :: "fl \<Rightarrow> fl \<Rightarrow> fl" where
  "fmul (Fin a) (Fin b) = Fin (a * b)"
| "fmul (Fin a) PInf = (if a = 0 then NaN else if 0 < a then PInf else NInf)"
| "fmul (Fin a) NInf = (if a = 0 then NaN else if 0 < a then NInf else PInf)"
| "fmul (Fin a) NaN = NaN"
| "fmul PInf (Fin b) = (if b = 0 then NaN else if 0 < b then PInf else NInf)"
| "fmul PInf PInf = PInf"
| "fmul PInf NInf = NInf"
| "fmul PInf NaN = NaN"
| "fmul NInf (Fin b) = (if b = 0 then NaN else if 0 < b then NInf else PInf)"
| "fmul NInf PInf = NInf"
| "fmul NInf NInf = PInf"
| "fmul NInf NaN = NaN"
| "fmul NaN y = NaN"

text \<open>
  Division: a finite nonzero number divided by zero is an infinity (of the sign of the
  numerator, the zero being taken as positive), zero by zero is NaN, a finite number
  divided by an infinity is zero.
\<close>

fun fdiv :: "fl \<Rightarrow> fl \<Rightarrow> fl" where
  "fdiv (Fin a) (Fin b) =
     (if b \<noteq> 0 then Fin (a / b) else if a = 0 then NaN else if 0 < a then PInf else NInf)"
| "fdiv (Fin a) PInf = Fin 0"
| "fdiv (Fin a) NInf = Fin 0"
| "fdiv (Fin a) NaN = NaN"
| "fdiv PInf (Fin b) = (if 0 \<le> b then PInf else NInf)"
| "fdiv PInf PInf = NaN"
| "fdiv PInf NInf = NaN"
| "fdiv PInf NaN = NaN"
| "fdiv NInf (Fin b) = (if 0 \<le> b then NInf else PInf)"
| "fdiv NInf PInf = NaN"
| "fdiv NInf NInf = NaN"
| "fdiv NInf NaN = NaN"
| "fdiv NaN y = NaN"

text \<open>
  Rounding to binary64, to nearest with a tie going to the even neighbour. \<open>binade\<close>
  finds the exponent \<open>e\<close> with \<open>2 ^ e <= x < 2 ^ (e + 1)\<close> of a positive \<open>x\<close>, not below
  \<open>-1022\<close> (the subnormal range); its first argument bounds the number of steps and is
  more than the exponent range. The significand has 53 bits, so the spacing of the
  floats around \<open>x\<close> is \<open>2 ^ (e - 52)\<close>; a result of magnitude \<open>2 ^ 1024\<close> or more is an
  infinity.
\<close>

definition round_half_even :: "real \<Rightarrow> int" where
  "round_half_even x =
     (let f = \<lfloor>x\<rfloor>; d = x - of_int f
      in if d < 1 / 2 then f else if 1 / 2 < d then f + 1 else if even f then f else f + 1)"

fun binade :: "nat \<Rightarrow> real \<Rightarrow> int \<Rightarrow> int" where
  "binade 0 x e = e"
| "binade (Suc k) x e =
     (if 2 \<le> x then binade k (x / 2) (e + 1)
      else if x < 1 \<and> - 1022 < e then binade k (x * 2) (e - 1)
      else e)"

definition pow2 :: "int \<Rightarrow> real" where
  "pow2 e = (if 0 \<le> e then 2 ^ nat e else 1 / 2 ^ nat (- e))"

definition round64 :: "real \<Rightarrow> fl" where
  "round64 x =
     (if x = 0 then Fin 0
      else (let e = binade 2200 \<bar>x\<bar> 0;
                ulp = pow2 (e - 52);
                r = of_int (round_half_even (x / ulp)) * ulp
            in if pow2 1024 \<le> \<bar>r\<bar> then (if 0 < x then PInf else NInf) else Fin r))"

text \<open>The addition of two binary64 floats: the exact sum, rounded.\<close>

definition fadd64 :: "fl \<Rightarrow> fl \<Rightarrow> fl" where
  "fadd64 x y = (case fadd x y of Fin s \<Rightarrow> round64 s | PInf \<Rightarrow> PInf | NInf \<Rightarrow> NInf | NaN \<Rightarrow> NaN)"

text \<open>The comparisons \<open>x > y\<close> and \<open>x <= y\<close>: false as soon as one side is NaN.\<close>

fun fgt :: "fl \<Rightarrow> fl \<Rightarrow> bool" where
  "fgt (Fin a) (Fin b) = (b < a)"
| "fgt (Fin a) PInf = False"
| "fgt (Fin a) NInf = True"
| "fgt (Fin a) NaN = False"
| "fgt PInf (Fin b) = True"
| "fgt PInf PInf = False"
| "fgt PInf NInf = True"
| "fgt PInf NaN = False"
| "fgt NInf y = False"
| "fgt NaN y = False"

fun fle :: "fl \<Rightarrow> fl \<Rightarrow> bool" where
  "fle (Fin a) (Fin b) = (a \<le> b)"
| "fle (Fin a) PInf = True"
| "fle (Fin a) NInf = False"
| "fle (Fin a) NaN = False"
| "fle PInf (Fin b) = False"
| "fle PInf PInf = True"
| "fle PInf NInf = False"
| "fle PInf NaN = False"
| "fle NInf (Fin b) = True"
| "fle NInf PInf = True"
| "fle NInf NInf = True"
| "fle NInf NaN = False"
| "fle NaN y = False"

text \<open>\<open>Series.notna()\<close> on one value.\<close>

fun notna :: "fl \<Rightarrow> bool" where
  "notna NaN = False"
| "notna (Fin a) = True"
| "notna PInf = True"
| "notna NInf = True"

text \<open>
  Python's builtin \<open>max(a, b)\<close> on two floats keeps \<open>a\<close> unless \<open>b > a\<close>; a NaN in
  first position is therefore kept, a NaN in second position is dropped.
\<close>

definition py_max :: "fl \<Rightarrow> fl \<Rightarrow> fl" where
  "py_max a b = (if fgt b a then b else a)"

text \<open>
  \<open>Series.max()\<close> skips missing values and is NaN when nothing is left.
\<close>

definition series_max :: "fl list \<Rightarrow> fl" where
  "series_max xs =
     (case filter notna xs of
        [] \<Rightarrow> NaN
      | y # ys \<Rightarrow> foldl py_max y ys)"

text \<open>
  A cell of a frame is a float or a text; a missing cell is \<open>F NaN\<close> in either kind of
  column. The exceptions the code can raise are values of \<open>error\<close>.
\<close>

datatype cell = F fl | S string

datatype error =
    KeyError string
  | TypeError
  | ValueError
  | OverflowError
  | IndexError
  | ZeroDivisionError
  | FileNotFoundError string
  | OtherError string

text \<open>
  A \<open>pandas.DataFrame\<close> with the default row index: the number of rows and the columns
  in their order. \<open>wf_table\<close> is the invariant of every frame pandas builds: each column
  has one cell per row and the labels are distinct.
\<close>

record table =
  nrows :: nat
  cols :: "(string \<times> cell list) list"

definition wf_table :: "table \<Rightarrow> bool" where
  "wf_table t \<longleftrightarrow>
     list_all (\<lambda>p. length (snd p) = nrows t) (cols t) \<and> distinct (map fst (cols t))"

text \<open>\<open>c in df.columns\<close>, \<open>df[c]\<close>, \<open>df[c] = column\<close> and \<open>df[c] = scalar\<close>.\<close>

definition has_col :: "table \<Rightarrow> string \<Rightarrow> bool" where
  "has_col t c \<longleftrightarrow> map_of (cols t) c \<noteq> None"

definition get_col :: "table \<Rightarrow> string \<Rightarrow> error + cell list" where
  "get_col t c = (case map_of (cols t) c of None \<Rightarrow> Inl (KeyError c) | Some xs \<Rightarrow> Inr xs)"

definition set_col :: "table \<Rightarrow> string \<Rightarrow> cell list \<Rightarrow> table" where
  "set_col t c xs = t\<lparr>cols := AList.update c xs (cols t)\<rparr>"

definition set_scalar :: "table \<Rightarrow> string \<Rightarrow> cell \<Rightarrow> table" where
  "set_scalar t c v = set_col t c (replicate (nrows t) v)"

text \<open>
  Arithmetic on a column needs floats: a text cell makes pandas raise \<open>TypeError\<close>.
\<close>

fun as_float :: "cell \<Rightarrow> error + fl" where
  "as_float (F x) = Inr x"
| "as_float (S s) = Inl TypeError"

fun floats :: "cell list \<Rightarrow> error + fl list" where
  "floats [] = Inr []"
| "floats (c # cs) =
     (case as_float c of
        Inl e \<Rightarrow> Inl e
      | Inr x \<Rightarrow> (case floats cs of Inl e \<Rightarrow> Inl e | Inr xs \<Rightarrow> Inr (x # xs)))"

definition num_col :: "table \<Rightarrow> string \<Rightarrow> error + fl list" where
  "num_col t c = (case get_col t c of Inl e \<Rightarrow> Inl e | Inr xs \<Rightarrow> floats xs)"

text \<open>Reading a column out of a result, for stating properties of a returned frame.\<close>

definition result_col :: "error + table \<Rightarrow> string \<Rightarrow> error + cell list" where
  "result_col r c = (case r of Inl e \<Rightarrow> Inl e | Inr t \<Rightarrow> get_col t c)"

section \<open>The Metrics Engine (utils/metrics.py)\<close>

text \<open>
  \<open>compute_metrics\<close> mutates the frame it is given and returns it; the model returns the
  new frame. The warnings it emits are advisory and are not part of the model.
\<close>

definition cost_cols :: "string list" where
  "cost_cols = [''Fuel_Cost_INR'', ''Labor_Cost_INR'', ''Maintenance_Cost_INR'', ''Toll_Charges_INR'']"

text \<open>\<open>if c not in df.columns: df[c] = v\<close>\<close>

definition ensure_col :: "table \<Rightarrow> string \<Rightarrow> cell \<Rightarrow> table" where
  "ensure_col t c v = (if has_col t c then t else set_scalar t c v)"

text \<open>
  \<open>df[cost_cols].sum(axis=1)\<close>: the row-wise sum, a missing cell counting as 0
  (\<open>skipna\<close> is on by default). The columns are added in their order, each addition
  being the float addition, which rounds.
\<close>

fun skipna0 :: "fl \<Rightarrow> fl" where
  "skipna0 NaN = Fin 0"
| "skipna0 (Fin a) = Fin a"
| "skipna0 PInf = PInf"
| "skipna0 NInf = NInf"

definition sum_axis1 :: "nat \<Rightarrow> fl list list \<Rightarrow> fl list" where
  "sum_axis1 n cs =
     (case cs of
        [] \<Rightarrow> replicate n (Fin 0)
      | c # rest \<Rightarrow>
          foldl (\<lambda>acc c. map (\<lambda>p. fadd64 (fst p) (snd p)) (zip acc (map skipna0 c)))
            (map skipna0 c) rest)"

fun num_cols :: "table \<Rightarrow> string list \<Rightarrow> error + fl list list" where
  "num_cols t [] = Inr []"
| "num_cols t (c # cs) =
     (case num_col t c of
        Inl e \<Rightarrow> Inl e
      | Inr x \<Rightarrow> (case num_cols t cs of Inl e \<Rightarrow> Inl e | Inr xs \<Rightarrow> Inr (x # xs)))"

text \<open>Lines 14 to 20: the cost columns and \<open>Total_Cost_INR\<close>.\<close>

definition add_total_cost :: "table \<Rightarrow> error + table" where
  "add_total_cost t =
     (let df = foldl (\<lambda>d c. ensure_col d c (F (Fin 0))) t cost_cols in
      case num_cols df cost_cols of
        Inl e \<Rightarrow> Inl e
      | Inr cs \<Rightarrow> Inr (set_col df ''Total_Cost_INR'' (map F (sum_axis1 (nrows df) cs))))"

text \<open>
  Lines 23 to 34: \<open>Fuel_per_KM\<close>. \<open>np.where(mask, a, nan)\<close> evaluates the quotient on
  every row (an infinity or NaN where the distance is 0) and then keeps it only where
  the mask holds.
\<close>

definition np_where :: "bool list \<Rightarrow> fl list \<Rightarrow> fl \<Rightarrow> fl list" where
  "np_where cond xs y = map (\<lambda>p. if fst p then snd p else y) (zip cond xs)"

definition col_div :: "fl list \<Rightarrow> fl list \<Rightarrow> fl list" where
  "col_div xs ys = map (\<lambda>p. fdiv (fst p) (snd p)) (zip xs ys)"

definition add_fuel_per_km :: "table \<Rightarrow> error + table" where
  "add_fuel_per_km t =
     (let df1 = ensure_col t ''Fuel_Consumption_L'' (F NaN);
          df2 = ensure_col df1 ''Distance_KM'' (F NaN) in
      case num_col df2 ''Distance_KM'' of
        Inl e \<Rightarrow> Inl e
      | Inr dists \<Rightarrow>
          (case num_col df2 ''Fuel_Consumption_L'' of
             Inl e \<Rightarrow> Inl e
           | Inr fuels \<Rightarrow>
               Inr (set_col df2 ''Fuel_per_KM''
                      (map F (np_where (map (\<lambda>d. fgt d (Fin 0) \<and> notna d) dists)
                                (col_div fuels dists) NaN)))))"

text \<open>Lines 37 to 45: \<open>Delay_Index\<close> and \<open>Reliability_Score\<close>.\<close>

definition add_reliability :: "table \<Rightarrow> error + table" where
  "add_reliability t =
     (let df1 = ensure_col t ''Traffic_Delay_Minutes'' (F (Fin 0)) in
      case num_col df1 ''Traffic_Delay_Minutes'' of
        Inl e \<Rightarrow> Inl e
      | Inr delay \<Rightarrow>
          (let delay_index = map (\<lambda>d. fdiv d (Fin 60)) delay;
               df2 = set_col df1 ''Delay_Index'' (map F delay_index);
               max_delay = (if delay_index \<noteq> [] then series_max delay_index else Fin 0);
               denom = py_max max_delay (Fin (1 / 10))
           in Inr (set_col df2 ''Reliability_Score''
                     (map (\<lambda>x. F (fsub (Fin 1) (fdiv x denom))) delay_index))))"

definition compute_metrics :: "table \<Rightarrow> error + table" where
  "compute_metrics t =
     (case add_total_cost t of
        Inl e \<Rightarrow> Inl e
      | Inr t1 \<Rightarrow>
          (case add_fuel_per_km t1 of
             Inl e \<Rightarrow> Inl e
           | Inr t2 \<Rightarrow> add_reliability t2))"

text \<open>
  Vocabulary for the statements. \<open>rect\<close> is the part of \<open>wf_table\<close> the proofs use.
  \<open>cell_or dflt t c i\<close> is the cell of column \<open>c\<close> in row \<open>i\<close>, and \<open>dflt\<close> when the frame
  has no such column. \<open>metrics_inputs_numeric\<close> says that the columns
  \<open>compute_metrics\<close> reads hold no text.
\<close>

definition rect :: "table \<Rightarrow> bool" where
  "rect t \<longleftrightarrow> (\<forall>c xs. map_of (cols t) c = Some xs \<longrightarrow> length xs = nrows t)"

definition cell_or :: "cell \<Rightarrow> table \<Rightarrow> string \<Rightarrow> nat \<Rightarrow> cell" where
  "cell_or dflt t c i = (case map_of (cols t) c of None \<Rightarrow> dflt | Some xs \<Rightarrow> xs ! i)"

fun is_float :: "cell \<Rightarrow> bool" where
  "is_float (F x) = True"
| "is_float (S s) = False"

definition numeric_col :: "table \<Rightarrow> string \<Rightarrow> bool" where
  "numeric_col t c = (case map_of (cols t) c of None \<Rightarrow> True | Some xs \<Rightarrow> list_all is_float xs)"

definition metrics_inputs_numeric :: "table \<Rightarrow> bool" where
  "metrics_inputs_numeric t =
     list_all (numeric_col t)
       (cost_cols @ [''Fuel_Consumption_L'', ''Distance_KM'', ''Traffic_Delay_Minutes''])"



section \<open>The Delay Model Wrapper (predictor.py)\<close>

text \<open>
  What \<open>predict\<close> can be handed: a frame, an array-like with rows (a list of rows or a
  two-dimensional array), or an object without a length (a scalar, which \<open>np.array\<close>
  turns into a zero-dimensional array). A model is any object with a \<open>predict\<close> method,
  which returns a sequence of floats or raises.
\<close>

datatype pinput = Frame table | Rows "cell list list" | Unsized

type_synonym model = "pinput \<Rightarrow> error + fl list"

text \<open>\<open>len(X)\<close>\<close>

fun py_len :: "pinput \<Rightarrow> error + nat" where
  "py_len (Frame t) = Inr (nrows t)"
| "py_len (Rows m) = Inr (length m)"
| "py_len Unsized = Inl TypeError"

text \<open>
  \<open>DummyModel.predict\<close>: \<open>np.zeros(len(X))\<close>, and \<open>np.array([0.0])\<close> when \<open>len\<close> raises.
\<close>

definition DummyModel_predict :: model where
  "DummyModel_predict X =
     (case py_len X of
        Inr n \<Rightarrow> Inr (replicate n (Fin 0))
      | Inl e \<Rightarrow> Inr [Fin 0])"

text \<open>
  \<open>PredictWrapper._preprocess\<close>, first step (lines 33 and 34): the guard looks for
  \<open>Fuel_per_KM\<close> and \<open>Fuel_Consumption_L\<close> only; \<open>X["Distance_KM"]\<close> is then read
  without a guard and raises \<open>KeyError\<close> when the frame has no such column.
  \<open>Series.replace(0, 1)\<close> turns a zero cell into 1 and leaves every other cell.
\<close>

fun replace_0_1 :: "cell \<Rightarrow> cell" where
  "replace_0_1 (F (Fin a)) = (if a = 0 then F (Fin 1) else F (Fin a))"
| "replace_0_1 (F PInf) = F PInf"
| "replace_0_1 (F NInf) = F NInf"
| "replace_0_1 (F NaN) = F NaN"
| "replace_0_1 (S s) = S s"

definition series_div :: "cell list \<Rightarrow> cell list \<Rightarrow> error + cell list" where
  "series_div xs ys =
     (case floats xs of
        Inl e \<Rightarrow> Inl e
      | Inr fx \<Rightarrow> (case floats ys of Inl e \<Rightarrow> Inl e | Inr fy \<Rightarrow> Inr (map F (col_div fx fy))))"

definition derive_fuel_per_km :: "table \<Rightarrow> error + table" where
  "derive_fuel_per_km X =
     (if \<not> has_col X ''Fuel_per_KM'' \<and> has_col X ''Fuel_Consumption_L'' then
        (case get_col X ''Fuel_Consumption_L'' of
           Inl e \<Rightarrow> Inl e
         | Inr fuel \<Rightarrow>
             (case get_col X ''Distance_KM'' of
                Inl e \<Rightarrow> Inl e
              | Inr distance \<Rightarrow>
                  (case series_div fuel (map replace_0_1 distance) of
                     Inl e \<Rightarrow> Inl e
                   | Inr q \<Rightarrow> Inr (set_col X ''Fuel_per_KM'' q))))
      else Inr X)"

text \<open>
  Second step (lines 36 to 40): the weather label. \<open>Series.map(weather_map)\<close> gives a
  missing value for every cell that is not a key of the dictionary, and \<open>fillna(0)\<close>
  makes it 0.
\<close>

definition weather_map :: "(string \<times> fl) list" where
  "weather_map = [(''None'', Fin 0), (''Light_Rain'', Fin 1), (''Heavy_Rain'', Fin 2), (''Fog'', Fin 3)]"

fun map_weather :: "cell \<Rightarrow> cell" where
  "map_weather (S s) = (case map_of weather_map s of None \<Rightarrow> F NaN | Some v \<Rightarrow> F v)"
| "map_weather (F x) = F NaN"

fun fillna :: "cell \<Rightarrow> cell \<Rightarrow> cell" where
  "fillna v (F NaN) = v"
| "fillna v (F (Fin a)) = F (Fin a)"
| "fillna v (F PInf) = F PInf"
| "fillna v (F NInf) = F NInf"
| "fillna v (S s) = S s"

definition add_weather_num :: "table \<Rightarrow> table" where
  "add_weather_num X =
     (case map_of (cols X) ''Weather_Impact'' of
        Some w \<Rightarrow> set_col X ''Weather_Impact_Num'' (map (\<lambda>c. fillna (F (Fin 0)) (map_weather c)) w)
      | None \<Rightarrow>
          (if \<not> has_col X ''Weather_Impact_Num'' then set_scalar X ''Weather_Impact_Num'' (F (Fin 0))
           else X))"

text \<open>
  Last steps (lines 42 to 47): every feature still absent becomes a column of zeros, and
  \<open>X[self.features].fillna(0).values\<close> is the matrix of the feature columns, row by
  row, with the missing cells filled.
\<close>

fun get_cols :: "table \<Rightarrow> string list \<Rightarrow> error + cell list list" where
  "get_cols t [] = Inr []"
| "get_cols t (c # cs) =
     (case get_col t c of
        Inl e \<Rightarrow> Inl e
      | Inr x \<Rightarrow> (case get_cols t cs of Inl e \<Rightarrow> Inl e | Inr xs \<Rightarrow> Inr (x # xs)))"

definition to_rows :: "nat \<Rightarrow> cell list list \<Rightarrow> cell list list" where
  "to_rows n cs = map (\<lambda>i. map (\<lambda>c. c ! i) cs) [0..<n]"

definition preprocess :: "string list \<Rightarrow> table \<Rightarrow> error + pinput" where
  "preprocess features df =
     (case derive_fuel_per_km df of
        Inl e \<Rightarrow> Inl e
      | Inr X1 \<Rightarrow>
          (let X2 = add_weather_num X1;
               X3 = foldl (\<lambda>X f. ensure_col X f (F (Fin 0))) X2 features
           in case get_cols X3 features of
                Inl e \<Rightarrow> Inl e
              | Inr cs \<Rightarrow> Inr (Rows (to_rows (nrows X3) (map (map (fillna (F (Fin 0)))) cs)))))"

text \<open>
  \<open>PredictWrapper.predict\<close>: a frame is preprocessed, anything else goes through
  \<open>np.array\<close>, which keeps the rows of an array-like and the lack of a length of a scalar.
\<close>

definition PredictWrapper_predict :: "model \<Rightarrow> string list \<Rightarrow> model" where
  "PredictWrapper_predict inner features df_or_array =
     (case df_or_array of
        Frame df \<Rightarrow> (case preprocess features df of Inl e \<Rightarrow> Inl e | Inr Xp \<Rightarrow> inner Xp)
      | Rows m \<Rightarrow> inner (Rows m)
      | Unsized \<Rightarrow> inner Unsized)"

text \<open>
  The fallback of \<open>load_model\<close> (lines 55, 84 and 100): the stub behind the wrapper, with
  the fixed feature list.
\<close>

definition model_features :: "string list" where
  "model_features = [''Distance_KM'', ''Fuel_per_KM'', ''Weather_Impact_Num'', ''Total_Cost_INR'']"

definition stub_wrapper :: model where
  "stub_wrapper = PredictWrapper_predict DummyModel_predict model_features"

section \<open>The Impact Estimator and the Action Ranker (main.py)\<close>

text \<open>
  A value of the \<open>changes\<close> dictionary is, as the docstring has it, a new value or the
  tuple \<open>('mul', factor)\<close>. The dictionary is its list of items in insertion order.
\<close>

datatype change = Mul fl | SetTo cell

text \<open>
  One turn of the loop of lines 50 to 56. A scale directive is applied only when the
  column is there (\<open>if k in inp.columns\<close>); a new value is assigned in every case, which
  adds the column when it is not there.
\<close>

fun apply_change :: "table \<Rightarrow> string \<times> change \<Rightarrow> error + table" where
  "apply_change inp (k, Mul factor) =
     (if has_col inp k then
        (case num_col inp k of
           Inl e \<Rightarrow> Inl e
         | Inr xs \<Rightarrow> Inr (set_col inp k (map (\<lambda>x. F (fmul x factor)) xs)))
      else Inr inp)"
| "apply_change inp (k, SetTo v) = Inr (set_scalar inp k v)"

fun apply_changes :: "table \<Rightarrow> (string \<times> change) list \<Rightarrow> error + table" where
  "apply_changes inp [] = Inr inp"
| "apply_changes inp (kv # rest) =
     (case apply_change inp kv of
        Inl e \<Rightarrow> Inl e
      | Inr inp' \<Rightarrow> apply_changes inp' rest)"

text \<open>\<open>float(model.predict(df)[0]) if df.shape[0] else 0.0\<close>\<close>

definition first_prediction :: "model \<Rightarrow> table \<Rightarrow> error + fl" where
  "first_prediction m df =
     (if nrows df \<noteq> 0 then
        (case m (Frame df) of
           Inl e \<Rightarrow> Inl e
         | Inr [] \<Rightarrow> Inl IndexError
         | Inr (p # ps) \<Rightarrow> Inr p)
      else Inr (Fin 0))"

definition estimate_impact :: "model \<Rightarrow> table \<Rightarrow> (string \<times> change) list \<Rightarrow> error + fl" where
  "estimate_impact m base_input changes =
     (case apply_changes base_input changes of
        Inl e \<Rightarrow> Inl e
      | Inr inp \<Rightarrow>
          (case first_prediction m base_input of
             Inl e \<Rightarrow> Inl e
           | Inr base_pred \<Rightarrow>
               (case first_prediction m inp of
                  Inl e \<Rightarrow> Inl e
                | Inr new_pred \<Rightarrow> Inr (py_max (Fin 0) (fsub base_pred new_pred)))))"

text \<open>
  A corrective action. Every action the function builds has a priority, so the default
  99 of \<open>x.get("priority", 99)\<close> is never taken and the sort key is the field itself.
  The second action has no \<open>details\<close>.
\<close>

record action =
  title :: string
  priority :: int
  est_delay_reduction_min :: fl
  est_cost_change :: string
  details :: "string option"

text \<open>
  \<open>round(x, 1)\<close>: to one decimal, a tie going to the even neighbour; an infinity or NaN
  is returned as it is.
\<close>

fun round1 :: "fl \<Rightarrow> fl" where
  "round1 (Fin x) = Fin (of_int (round_half_even (x * 10)) / 10)"
| "round1 PInf = PInf"
| "round1 NInf = NInf"
| "round1 NaN = NaN"

text \<open>
  \<open>int(c)\<close> on a cell: truncation towards zero, \<open>ValueError\<close> on NaN, \<open>OverflowError\<close> on
  an infinity. On a text Python parses the digits; the model reports \<open>ValueError\<close>, the
  input frame of the dashboard being numeric.
\<close>

fun py_int :: "cell \<Rightarrow> error + int" where
  "py_int (F (Fin x)) = Inr (if 0 \<le> x then \<lfloor>x\<rfloor> else \<lceil>x\<rceil>)"
| "py_int (F NaN) = Inl ValueError"
| "py_int (F PInf) = Inl OverflowError"
| "py_int (F NInf) = Inl OverflowError"
| "py_int (S s) = Inl ValueError"

text \<open>
  \<open>max(0, int(base_input.get("Weather_Impact_Num", pd.Series([0]))[0]) - 1)\<close>: the
  label 0 is the first row, and is not there in a frame without rows.
\<close>

definition shifted_weather :: "table \<Rightarrow> error + int" where
  "shifted_weather base_input =
     (case map_of (cols base_input) ''Weather_Impact_Num'' of
        None \<Rightarrow> Inr (max 0 (0 - 1))
      | Some [] \<Rightarrow> Inl (KeyError ''0'')
      | Some (c # cs) \<Rightarrow> (case py_int c of Inl e \<Rightarrow> Inl e | Inr w \<Rightarrow> Inr (max 0 (w - 1))))"

definition reroute_action :: "string \<Rightarrow> fl \<Rightarrow> action" where
  "reroute_action top_route est_reduce =
     \<lparr>title = ''Re-route deliveries currently on Route '' @ top_route
               @ '' to shorter/less-congested alternatives'',
      priority = 1,
      est_delay_reduction_min = round1 est_reduce,
      est_cost_change = [CHR 0xC2, CHR 0xB1] @ ''small'',
      details = Some (''Use historical congestion and distance data to pick alternate paths that reduce distance or avoid peak traffic. ''
                @ ''Prioritize high-delay routes for immediate re-routing.'')\<rparr>"

definition shift_action :: "fl \<Rightarrow> action" where
  "shift_action est_shift =
     \<lparr>title = ''Shift departure times earlier for weather/peak-hour avoidance'',
      priority = 2,
      est_delay_reduction_min = round1 est_shift,
      est_cost_change = ''small'',
      details = None\<rparr>"

definition fuel_action :: "fl \<Rightarrow> action" where
  "fuel_action est_fuel =
     \<lparr>title = ''Driver coaching and load optimization to reduce fuel per km'',
      priority = 3,
      est_delay_reduction_min = round1 est_fuel,
      est_cost_change = ''reduces fuel costs'',
      details = Some ''Coach drivers on eco-driving, optimize loads, and perform vehicle maintenance to improve fuel efficiency.''\<rparr>"

text \<open>
  The text-generation collaborator: absent (a false \<open>crew\<close>), or an object whose \<open>run\<close>
  returns a text or raises. The prompt is built from the titles and the estimates of the
  actions; \<open>run\<close> is given these pairs.
\<close>

type_synonym crew = "(string \<times> fl) list \<Rightarrow> error + string"

definition enrich :: "crew option \<Rightarrow> action list \<Rightarrow> action list" where
  "enrich crew actions =
     (case crew of
        None \<Rightarrow> actions
      | Some run \<Rightarrow>
          (case run (map (\<lambda>a. (title a, est_delay_reduction_min a)) actions) of
             Inl e \<Rightarrow> actions
           | Inr expanded \<Rightarrow>
               (case actions of
                  [] \<Rightarrow> []
                | a # rest \<Rightarrow>
                    a\<lparr>details := Some ((case details a of None \<Rightarrow> [] | Some d \<Rightarrow> d)
                        @ [CHR 0x0A, CHR 0x0A] @ ''Crew suggestion:'' @ [CHR 0x0A] @ expanded)\<rparr> # rest)))"

text \<open>
  \<open>generate_corrective_actions\<close>. The ranking of the routes,
  \<open>df.groupby(route_col)["Traffic_Delay_Minutes"].mean().sort_values(ascending=False)\<close>,
  is computed inside pandas: it is the parameter \<open>ranking\<close>, which gives the labels of
  the groups in that order, as they print, or the exception pandas raises.
\<close>

definition generate_corrective_actions ::
  "(table \<Rightarrow> string \<Rightarrow> string \<Rightarrow> error + string list) \<Rightarrow> table \<Rightarrow> model \<Rightarrow> table \<Rightarrow> crew option
     \<Rightarrow> error + action list" where
  "generate_corrective_actions ranking df m base_input crew =
     (let route_col = (if has_col df ''Route'' then ''Route'' else ''Order_ID'') in
      case ranking df route_col ''Traffic_Delay_Minutes'' of
        Inl e \<Rightarrow> Inl e
      | Inr route_delays \<Rightarrow>
          (case (case route_delays of
                   [] \<Rightarrow> Inr []
                 | top_route # others \<Rightarrow>
                     (case estimate_impact m base_input [(''Distance_KM'', Mul (Fin (9 / 10)))] of
                        Inl e \<Rightarrow> Inl e
                      | Inr est_reduce \<Rightarrow> Inr [reroute_action top_route est_reduce])) of
             Inl e \<Rightarrow> Inl e
           | Inr actions1 \<Rightarrow>
               (case shifted_weather base_input of
                  Inl e \<Rightarrow> Inl e
                | Inr w \<Rightarrow>
                    (case estimate_impact m base_input
                            [(''Weather_Impact_Num'', SetTo (F (Fin (of_int w))))] of
                       Inl e \<Rightarrow> Inl e
                     | Inr est_shift \<Rightarrow>
                         (case estimate_impact m base_input [(''Fuel_per_KM'', Mul (Fin (85 / 100)))] of
                            Inl e \<Rightarrow> Inl e
                          | Inr est_fuel \<Rightarrow>
                              Inr (sort_key priority
                                     (enrich crew
                                        (actions1 @ [shift_action est_shift, fuel_action est_fuel]))))))))"

section \<open>The Dataset Merger (utils/data_processing.py)\<close>

text \<open>
  The file system is a map from a path to what \<open>pd.read_csv\<close> gives there: \<open>None\<close> when
  no file exists at the path, and otherwise the frame it parses or the exception it
  raises (on an empty or malformed file). \<open>DATA_DIR\<close> depends on where the repository is
  installed and is a parameter.
\<close>

definition csv_path :: "string \<Rightarrow> string \<Rightarrow> string" where
  "csv_path data_dir name = data_dir @ ''/'' @ name"

definition read_csv :: "string \<Rightarrow> (string \<Rightarrow> (error + table) option) \<Rightarrow> string \<Rightarrow> error + table" where
  "read_csv data_dir fs name =
     (let path = csv_path data_dir name in
      case fs path of
        None \<Rightarrow> Inl (FileNotFoundError (''Required data file not found: '' @ path))
      | Some parsed \<Rightarrow> parsed)"

text \<open>
  \<open>Series.mean()\<close>: over the cells that are not missing, NaN when none is left. The
  mean is taken exactly; no property below depends on its value.
\<close>

definition series_mean :: "fl list \<Rightarrow> fl" where
  "series_mean xs =
     (let ys = filter notna xs in
      if ys = [] then NaN else fdiv (foldl fadd (Fin 0) ys) (Fin (real (length ys))))"

text \<open>
  The defaults of lines 35 to 46: one entry for each of the four columns that exists
  after the merge, and \<open>fillna\<close> with the dictionary fills the missing cells of these
  columns.
\<close>

definition fill_col :: "table \<Rightarrow> string \<Rightarrow> cell \<Rightarrow> table" where
  "fill_col t c v =
     (case map_of (cols t) c of None \<Rightarrow> t | Some xs \<Rightarrow> set_col t c (map (fillna v) xs))"

definition fill_defaults :: "table \<Rightarrow> error + table" where
  "fill_defaults merged =
     (case (if has_col merged ''Fuel_Consumption_L''
            then (case num_col merged ''Fuel_Consumption_L'' of
                    Inl e \<Rightarrow> Inl e
                  | Inr xs \<Rightarrow> Inr (F (series_mean xs)))
            else Inr (F NaN)) of
        Inl e \<Rightarrow> Inl e
      | Inr fuel_mean \<Rightarrow>
          Inr (fill_col
                (fill_col
                  (fill_col
                    (fill_col merged ''Traffic_Delay_Minutes'' (F (Fin 0)))
                    ''Weather_Impact'' (S ''None''))
                  ''Fuel_Consumption_L'' fuel_mean)
                ''Toll_Charges_INR'' (F (Fin 0))))"

text \<open>
  \<open>load_and_merge_data\<close>: the five files are read in this order, each read raising when
  its file is missing; \<open>vehicle_fleet.csv\<close> is read and not used afterwards. The left
  join \<open>DataFrame.merge(other, on="Order_ID", how="left")\<close> is computed inside pandas and
  is the parameter \<open>merge\<close>.
\<close>

definition load_and_merge_data ::
  "(table \<Rightarrow> table \<Rightarrow> error + table) \<Rightarrow> string \<Rightarrow> (string \<Rightarrow> (error + table) option)
     \<Rightarrow> error + table" where
  "load_and_merge_data merge data_dir fs =
     (case read_csv data_dir fs ''orders.csv'' of
        Inl e \<Rightarrow> Inl e
      | Inr orders \<Rightarrow>
     (case read_csv data_dir fs ''delivery_performance.csv'' of
        Inl e \<Rightarrow> Inl e
      | Inr delivery \<Rightarrow>
     (case read_csv data_dir fs ''routes_distance.csv'' of
        Inl e \<Rightarrow> Inl e
      | Inr routes \<Rightarrow>
     (case read_csv data_dir fs ''cost_breakdown.csv'' of
        Inl e \<Rightarrow> Inl e
      | Inr costs \<Rightarrow>
     (case read_csv data_dir fs ''vehicle_fleet.csv'' of
        Inl e \<Rightarrow> Inl e
      | Inr fleet \<Rightarrow>
     (case merge orders delivery of
        Inl e \<Rightarrow> Inl e
      | Inr m1 \<Rightarrow>
     (case merge m1 routes of
        Inl e \<Rightarrow> Inl e
      | Inr m2 \<Rightarrow>
     (case merge m2 costs of
        Inl e \<Rightarrow> Inl e
      | Inr merged \<Rightarrow> fill_defaults merged))))))))"


section \<open>Loading or training the model (predictor.py)\<close>

text \<open>
  What \<open>load_model\<close> finds around it: whether the imports of its first lines succeed;
  the object \<open>joblib\<close> loads from \<open>model.joblib\<close> when the file exists, loads and has a
  \<open>predict\<close> attribute (\<open>None\<close> in every other case, which all fall through to the
  training); the data files; and what \<open>LinearRegression().fit\<close> gives on a matrix and a
  target. Saving the trained wrapper is attempted and its failure is swallowed; the
  artifact is not part of the model.
\<close>

record environment =
  imports_available :: bool
  saved_model :: "model option"
  merge_frames :: "table \<Rightarrow> table \<Rightarrow> error + table"
  data_dir :: string
  files :: "string \<Rightarrow> (error + table) option"
  fit :: "cell list list \<Rightarrow> fl list \<Rightarrow> error + model"

text \<open>
  The body of the second \<open>try\<close> (lines 70 to 98). \<open>df.get("Weather_Impact", pd.Series())\<close>
  is an empty series when the column is absent, and assigning it leaves every row of
  \<open>Weather_Impact_Num\<close> missing. Fewer than two rows give the stub.
\<close>

definition train :: "environment \<Rightarrow> error + model" where
  "train env =
     (case load_and_merge_data (merge_frames env) (data_dir env) (files env) of
        Inl e \<Rightarrow> Inl e
      | Inr raw \<Rightarrow>
     (case compute_metrics raw of
        Inl e \<Rightarrow> Inl e
      | Inr df \<Rightarrow>
     (let df1 = set_col df ''Weather_Impact_Num''
                  (case map_of (cols df) ''Weather_Impact'' of
                     Some w \<Rightarrow> map (\<lambda>c. fillna (F (Fin 0)) (map_weather c)) w
                   | None \<Rightarrow> replicate (nrows df) (F NaN)) in
      case derive_fuel_per_km df1 of
        Inl e \<Rightarrow> Inl e
      | Inr df2 \<Rightarrow>
     (case get_cols df2 model_features of
        Inl e \<Rightarrow> Inl e
      | Inr cs \<Rightarrow>
     (let X = to_rows (nrows df2) (map (map (fillna (F (Fin 0)))) cs) in
      case (case map_of (cols df2) ''Traffic_Delay_Minutes'' of
              Some d \<Rightarrow> floats (map (fillna (F (Fin 0))) d)
            | None \<Rightarrow> Inr (replicate (length X) (Fin 0))) of
        Inl e \<Rightarrow> Inl e
      | Inr y \<Rightarrow>
          if length X < 2 \<or> length y < 2 then Inr (PredictWrapper_predict DummyModel_predict model_features)
          else (case fit env X y of
                  Inl e \<Rightarrow> Inl e
                | Inr trained \<Rightarrow> Inr (PredictWrapper_predict trained model_features)))))))"

text \<open>
  \<open>load_model\<close>: every exception of the imports and of the training gives the stub
  behind the wrapper.
\<close>

definition load_model :: "environment \<Rightarrow> model" where
  "load_model env =
     (if \<not> imports_available env then stub_wrapper
      else case saved_model env of
             Some m \<Rightarrow> m
           | None \<Rightarrow> (case train env of Inl e \<Rightarrow> stub_wrapper | Inr wrapper \<Rightarrow> wrapper))"

section \<open>Example frames\<close>

definition ex_negative_delay :: table where
  "ex_negative_delay = \<lparr>nrows = 1, cols = [(''Traffic_Delay_Minutes'', [F (Fin (- 60))])]\<rparr>"

definition ex_delays :: table where
  "ex_delays = \<lparr>nrows = 2, cols = [(''Traffic_Delay_Minutes'', [F (Fin 30), F (Fin 0)])]\<rparr>"


definition ex_zero_distance :: table where
  "ex_zero_distance = \<lparr>nrows = 1, cols =
     [(''Distance_KM'', [F (Fin 0)]), (''Fuel_Consumption_L'', [F (Fin 10)])]\<rparr>"

definition ex_delays_out :: table where
  "ex_delays_out = \<lparr>nrows = 2, cols =
     [(''Traffic_Delay_Minutes'', [F (Fin 30), F (Fin 0)]),
      (''Fuel_Cost_INR'', [F (Fin 0), F (Fin 0)]),
      (''Labor_Cost_INR'', [F (Fin 0), F (Fin 0)]),
      (''Maintenance_Cost_INR'', [F (Fin 0), F (Fin 0)]),
      (''Toll_Charges_INR'', [F (Fin 0), F (Fin 0)]),
      (''Total_Cost_INR'', [F (Fin 0), F (Fin 0)]),
      (''Fuel_Consumption_L'', [F NaN, F NaN]),
      (''Distance_KM'', [F NaN, F NaN]),
      (''Fuel_per_KM'', [F NaN, F NaN]),
      (''Delay_Index'', [F (Fin (1 / 2)), F (Fin 0)]),
      (''Reliability_Score'', [F (Fin 0), F (Fin 1)])]\<rparr>"

definition ex_no_delay :: table where
  "ex_no_delay = \<lparr>nrows = 2, cols = [(''Traffic_Delay_Minutes'', [F (Fin 0), F (Fin 0)])]\<rparr>"

definition ex_no_delay_out :: table where
  "ex_no_delay_out = \<lparr>nrows = 2, cols =
     [(''Traffic_Delay_Minutes'', [F (Fin 0), F (Fin 0)]),
      (''Fuel_Cost_INR'', [F (Fin 0), F (Fin 0)]),
      (''Labor_Cost_INR'', [F (Fin 0), F (Fin 0)]),
      (''Maintenance_Cost_INR'', [F (Fin 0), F (Fin 0)]),
      (''Toll_Charges_INR'', [F (Fin 0), F (Fin 0)]),
      (''Total_Cost_INR'', [F (Fin 0), F (Fin 0)]),
      (''Fuel_Consumption_L'', [F NaN, F NaN]),
      (''Distance_KM'', [F NaN, F NaN]),
      (''Fuel_per_KM'', [F NaN, F NaN]),
      (''Delay_Index'', [F (Fin 0), F (Fin 0)]),
      (''Reliability_Score'', [F (Fin 1), F (Fin 1)])]\<rparr>"


definition ex_zero_distance_out :: table where
  "ex_zero_distance_out = \<lparr>nrows = 1, cols =
     [(''Distance_KM'', [F (Fin 0)]),
      (''Fuel_Consumption_L'', [F (Fin 10)]),
      (''Fuel_Cost_INR'', [F (Fin 0)]),
      (''Labor_Cost_INR'', [F (Fin 0)]),
      (''Maintenance_Cost_INR'', [F (Fin 0)]),
      (''Toll_Charges_INR'', [F (Fin 0)]),
      (''Total_Cost_INR'', [F (Fin 0)]),
      (''Fuel_per_KM'', [F NaN]),
      (''Traffic_Delay_Minutes'', [F (Fin 0)]),
      (''Delay_Index'', [F (Fin 0)]),
      (''Reliability_Score'', [F (Fin 1)])]\<rparr>"

definition ex_fuel_only :: table where
  "ex_fuel_only = \<lparr>nrows = 1, cols = [(''Fuel_Consumption_L'', [F (Fin 10)])]\<rparr>"

definition ex_two_rows_fuel_only :: table where
  "ex_two_rows_fuel_only =
     \<lparr>nrows = 2, cols = [(''Fuel_Consumption_L'', [F (Fin 10), F (Fin 12)]),
                         (''Total_Cost_INR'', [F (Fin 500), F (Fin 700)])]\<rparr>"


text \<open>
  The input row of the dashboard, as \<open>_prepare_input\<close> builds it from distance 500, fuel
  100, toll 200, weather \<open>Light_Rain\<close> and cost 2000.
\<close>

definition ex_base_input :: table where
  "ex_base_input = \<lparr>nrows = 1, cols =
     [(''Distance_KM'', [F (Fin 500)]),
      (''Fuel_Consumption_L'', [F (Fin 100)]),
      (''Toll_Charges_INR'', [F (Fin 200)]),
      (''Weather_Impact_Num'', [F (Fin 1)]),
      (''Fuel_per_KM'', [F (Fin (1 / 5))]),
      (''Total_Cost_INR'', [F (Fin 2000)])]\<rparr>"

text \<open>A model whose predicted delay falls as the distance grows: minus the distance.\<close>

definition ex_model :: model where
  "ex_model X =
     (case X of
        Frame t \<Rightarrow> (case num_col t ''Distance_KM'' of Inl e \<Rightarrow> Inl e | Inr ds \<Rightarrow> Inr (map fneg ds))
      | Rows m \<Rightarrow> Inr []
      | Unsized \<Rightarrow> Inr [])"

definition ex_ranking :: "table \<Rightarrow> string \<Rightarrow> string \<Rightarrow> error + string list" where
  "ex_ranking df route_col value_col = Inr [''R7'', ''R2'']"

definition ex_no_routes :: "table \<Rightarrow> string \<Rightarrow> string \<Rightarrow> error + string list" where
  "ex_no_routes df route_col value_col = Inr []"

definition ex_crew :: crew where
  "ex_crew prompt = Inr ''1) Re-route to avoid congestion.''"

definition ex_failing_crew :: crew where
  "ex_failing_crew prompt = Inl (OtherError ''provider unavailable'')"

definition ex_orders :: table where
  "ex_orders = \<lparr>nrows = 1, cols = [(''Order_ID'', [S ''A''])]\<rparr>"




definition ex_merge :: "table \<Rightarrow> table \<Rightarrow> error + table" where
  "ex_merge left right = Inr left"

definition ex_actions :: "action list" where
  "ex_actions =
     enrich (Some ex_crew) [reroute_action ''R7'' (Fin 0), shift_action (Fin 0), fuel_action (Fin 0)]"

definition ex_shuffled :: "action list" where
  "ex_shuffled = [fuel_action (Fin 0), reroute_action ''R7'' (Fin 0), shift_action (Fin 0)]"



text \<open>An installation without data files and without a saved model.\<close>

definition ex_no_data :: environment where
  "ex_no_data = \<lparr>imports_available = True, saved_model = None, merge_frames = ex_merge,
     data_dir = ''data'', files = (\<lambda>path. None), fit = (\<lambda>X y. Inl (OtherError ''not fitted''))\<rparr>"


section \<open>Auxiliary facts\<close>

lemma wf_table_rect: "wf_table t \<Longrightarrow> rect t"
  unfolding wf_table_def rect_def list_all_iff
  by (auto dest!: map_of_SomeD)

lemma floats_map_F [simp]: "floats (map F xs) = Inr xs"
  by (induction xs) auto

lemma floats_InrD: "floats cs = Inr xs \<Longrightarrow> cs = map F xs"
proof (induction cs arbitrary: xs)
  case Nil
  then show ?case by simp
next
  case (Cons c cs)
  then show ?case
    by (cases c) (auto split: sum.splits)
qed

lemma floats_Inr_iff: "floats cs = Inr xs \<longleftrightarrow> cs = map F xs"
  by (auto dest: floats_InrD)

lemma floats_Inl: "floats cs = Inl e \<Longrightarrow> e = TypeError"
proof (induction cs)
  case Nil
  then show ?case by simp
next
  case (Cons c cs)
  then show ?case by (cases c) (auto split: sum.splits)
qed

lemma num_col_Inr_iff: "num_col t c = Inr xs \<longleftrightarrow> map_of (cols t) c = Some (map F xs)"
  by (auto simp: num_col_def get_col_def floats_Inr_iff split: option.splits)

lemma num_col_Inl: "num_col t c = Inl e \<Longrightarrow> e = TypeError \<or> e = KeyError c"
  by (auto simp: num_col_def get_col_def split: option.splits dest: floats_Inl)

lemma get_col_Inr_iff: "get_col t c = Inr xs \<longleftrightarrow> map_of (cols t) c = Some xs"
  by (simp add: get_col_def split: option.splits)

lemma nrows_set_col [simp]: "nrows (set_col t c xs) = nrows t"
  by (simp add: set_col_def)

lemma map_of_set_col [simp]: "map_of (cols (set_col t c xs)) = (map_of (cols t))(c \<mapsto> xs)"
  by (simp add: set_col_def update_conv')

lemma nrows_ensure_col [simp]: "nrows (ensure_col t c v) = nrows t"
  by (simp add: ensure_col_def set_scalar_def)

lemma map_of_ensure_col:
  "map_of (cols (ensure_col t c v)) =
     (if map_of (cols t) c = None then (map_of (cols t))(c \<mapsto> replicate (nrows t) v)
      else map_of (cols t))"
  by (simp add: ensure_col_def set_scalar_def has_col_def)

lemma rect_set_col: "rect t \<Longrightarrow> length xs = nrows t \<Longrightarrow> rect (set_col t c xs)"
  by (simp add: rect_def)

lemma rect_ensure_col: "rect t \<Longrightarrow> rect (ensure_col t c v)"
  by (simp add: rect_def map_of_ensure_col)

lemma map_of_ensure_other:
  "c' \<noteq> c \<Longrightarrow> map_of (cols (ensure_col t c v)) c' = map_of (cols t) c'"
  by (simp add: map_of_ensure_col)

lemma ensure_col_nth:
  "map_of (cols (ensure_col t c v)) c = Some xs \<Longrightarrow> i < nrows t \<Longrightarrow> xs ! i = cell_or v t c i"
  by (auto simp: map_of_ensure_col cell_or_def split: if_splits)

lemma length_sum_axis1_4:
  "length a = n \<Longrightarrow> length b = n \<Longrightarrow> length c = n \<Longrightarrow> length d = n \<Longrightarrow>
   length (sum_axis1 n [a, b, c, d]) = n"
  by (simp add: sum_axis1_def)

lemma fadd_zero_left [simp]: "fadd (Fin 0) x = x"
  by (cases x) auto

lemma sum_axis1_4_nth:
  "length a = n \<Longrightarrow> length b = n \<Longrightarrow> length c = n \<Longrightarrow> length d = n \<Longrightarrow> i < n \<Longrightarrow>
   sum_axis1 n [a, b, c, d] ! i =
     fadd64 (fadd64 (fadd64 (skipna0 (a ! i)) (skipna0 (b ! i))) (skipna0 (c ! i))) (skipna0 (d ! i))"
  by (simp add: sum_axis1_def)

lemma num_cols_4:
  "num_cols t [c1, c2, c3, c4] = Inr cs \<Longrightarrow>
   \<exists>x1 x2 x3 x4. cs = [x1, x2, x3, x4] \<and> num_col t c1 = Inr x1 \<and> num_col t c2 = Inr x2
      \<and> num_col t c3 = Inr x3 \<and> num_col t c4 = Inr x4"
  by (auto split: sum.splits)

lemma add_total_cost_Inr:
  assumes ok: "add_total_cost t = Inr t1" and r: "rect t"
  shows "nrows t1 = nrows t \<and> rect t1
     \<and> (\<forall>c. c \<notin> set cost_cols \<longrightarrow> c \<noteq> ''Total_Cost_INR'' \<longrightarrow> map_of (cols t1) c = map_of (cols t) c)
     \<and> (\<exists>tot. map_of (cols t1) ''Total_Cost_INR'' = Some tot \<and> length tot = nrows t
          \<and> (\<forall>i<nrows t. \<exists>a b c d.
                cell_or (F (Fin 0)) t ''Fuel_Cost_INR'' i = F a
              \<and> cell_or (F (Fin 0)) t ''Labor_Cost_INR'' i = F b
              \<and> cell_or (F (Fin 0)) t ''Maintenance_Cost_INR'' i = F c
              \<and> cell_or (F (Fin 0)) t ''Toll_Charges_INR'' i = F d
              \<and> tot ! i = F (fadd64 (fadd64 (fadd64 (skipna0 a) (skipna0 b)) (skipna0 c)) (skipna0 d))))"
proof -
  define z where "z = F (Fin 0)"
  define d1 where "d1 = ensure_col t ''Fuel_Cost_INR'' z"
  define d2 where "d2 = ensure_col d1 ''Labor_Cost_INR'' z"
  define d3 where "d3 = ensure_col d2 ''Maintenance_Cost_INR'' z"
  define df where "df = ensure_col d3 ''Toll_Charges_INR'' z"
  have n: "nrows d1 = nrows t" "nrows d2 = nrows t" "nrows d3 = nrows t" "nrows df = nrows t"
    by (simp_all add: d1_def d2_def d3_def df_def)
  have rdf: "rect df"
    unfolding df_def d3_def d2_def d1_def by (intro rect_ensure_col r)
  have fold: "foldl (\<lambda>d c. ensure_col d c (F (Fin 0))) t cost_cols = df"
    by (simp add: cost_cols_def df_def d3_def d2_def d1_def z_def)
  from ok obtain cs where cs: "num_cols df cost_cols = Inr cs"
    and t1: "t1 = set_col df ''Total_Cost_INR'' (map F (sum_axis1 (nrows df) cs))"
    by (auto simp: add_total_cost_def fold Let_def split: sum.splits)
  from cs obtain x1 x2 x3 x4 where cs4: "cs = [x1, x2, x3, x4]"
    and x1: "num_col df ''Fuel_Cost_INR'' = Inr x1"
    and x2: "num_col df ''Labor_Cost_INR'' = Inr x2"
    and x3: "num_col df ''Maintenance_Cost_INR'' = Inr x3"
    and x4: "num_col df ''Toll_Charges_INR'' = Inr x4"
    unfolding cost_cols_def by (blast dest: num_cols_4)
  have m1: "map_of (cols d1) ''Fuel_Cost_INR'' = Some (map F x1)"
    using x1 by (simp add: num_col_Inr_iff df_def d3_def d2_def map_of_ensure_other)
  have m2: "map_of (cols d2) ''Labor_Cost_INR'' = Some (map F x2)"
    using x2 by (simp add: num_col_Inr_iff df_def d3_def map_of_ensure_other)
  have m3: "map_of (cols d3) ''Maintenance_Cost_INR'' = Some (map F x3)"
    using x3 by (simp add: num_col_Inr_iff df_def map_of_ensure_other)
  have m4: "map_of (cols df) ''Toll_Charges_INR'' = Some (map F x4)"
    using x4 by (simp add: num_col_Inr_iff)
  have len: "length x1 = nrows t" "length x2 = nrows t" "length x3 = nrows t" "length x4 = nrows t"
    using rdf x1 x2 x3 x4 n unfolding rect_def num_col_Inr_iff by fastforce+
  have c1: "F (x1 ! i) = cell_or z t ''Fuel_Cost_INR'' i" if "i < nrows t" for i
    using ensure_col_nth [OF m1 [unfolded d1_def] that] len(1) that by simp
  have c2: "F (x2 ! i) = cell_or z t ''Labor_Cost_INR'' i" if "i < nrows t" for i
  proof -
    have "F (x2 ! i) = cell_or z d1 ''Labor_Cost_INR'' i"
      using ensure_col_nth [OF m2 [unfolded d2_def], of i] len(2) that n by simp
    then show ?thesis by (simp add: cell_or_def d1_def map_of_ensure_other)
  qed
  have c3: "F (x3 ! i) = cell_or z t ''Maintenance_Cost_INR'' i" if "i < nrows t" for i
  proof -
    have "F (x3 ! i) = cell_or z d2 ''Maintenance_Cost_INR'' i"
      using ensure_col_nth [OF m3 [unfolded d3_def], of i] len(3) that n by simp
    then show ?thesis by (simp add: cell_or_def d2_def d1_def map_of_ensure_other)
  qed
  have c4: "F (x4 ! i) = cell_or z t ''Toll_Charges_INR'' i" if "i < nrows t" for i
  proof -
    have "F (x4 ! i) = cell_or z d3 ''Toll_Charges_INR'' i"
      using ensure_col_nth [OF m4 [unfolded df_def], of i] len(4) that n by simp
    then show ?thesis by (simp add: cell_or_def d3_def d2_def d1_def map_of_ensure_other)
  qed
  have lt: "length (sum_axis1 (nrows df) cs) = nrows t"
    unfolding cs4 n by (rule length_sum_axis1_4) (simp_all add: len)
  have A: "nrows t1 = nrows t" by (simp add: t1 n)
  have B: "rect t1" unfolding t1 by (rule rect_set_col [OF rdf]) (use lt in \<open>simp add: n\<close>)
  have C: "map_of (cols t1) c = map_of (cols t) c"
    if "c \<notin> set cost_cols" "c \<noteq> ''Total_Cost_INR''" for c
    using that by (simp add: t1 df_def d3_def d2_def d1_def map_of_ensure_other cost_cols_def)
  have D: "map_of (cols t1) ''Total_Cost_INR'' = Some (map F (sum_axis1 (nrows df) cs))"
    by (simp add: t1)
  have E: "\<exists>a b c d.
                cell_or (F (Fin 0)) t ''Fuel_Cost_INR'' i = F a
              \<and> cell_or (F (Fin 0)) t ''Labor_Cost_INR'' i = F b
              \<and> cell_or (F (Fin 0)) t ''Maintenance_Cost_INR'' i = F c
              \<and> cell_or (F (Fin 0)) t ''Toll_Charges_INR'' i = F d
              \<and> map F (sum_axis1 (nrows df) cs) ! i
                  = F (fadd64 (fadd64 (fadd64 (skipna0 a) (skipna0 b)) (skipna0 c)) (skipna0 d))"
    if i: "i < nrows t" for i
  proof -
    have "map F (sum_axis1 (nrows df) cs) ! i = F (sum_axis1 (nrows t) [x1, x2, x3, x4] ! i)"
      using lt i by (simp add: cs4 n)
    also have "\<dots> = F (fadd64 (fadd64 (fadd64 (skipna0 (x1 ! i)) (skipna0 (x2 ! i))) (skipna0 (x3 ! i)))
                      (skipna0 (x4 ! i)))"
      using len i by (simp add: sum_axis1_4_nth)
    finally show ?thesis
      using c1 [OF i] c2 [OF i] c3 [OF i] c4 [OF i] unfolding z_def by metis
  qed
  show ?thesis
    using A B C D E lt by simp
qed

lemma length_np_where:
  "length cond = n \<Longrightarrow> length xs = n \<Longrightarrow> length (np_where cond xs y) = n"
  by (simp add: np_where_def)

lemma np_where_nth:
  "length cond = n \<Longrightarrow> length xs = n \<Longrightarrow> i < n \<Longrightarrow>
   np_where cond xs y ! i = (if cond ! i then xs ! i else y)"
  by (simp add: np_where_def)

lemma col_div_nth:
  "length xs = n \<Longrightarrow> length ys = n \<Longrightarrow> i < n \<Longrightarrow> col_div xs ys ! i = fdiv (xs ! i) (ys ! i)"
  by (simp add: col_div_def)

lemma length_col_div: "length xs = n \<Longrightarrow> length ys = n \<Longrightarrow> length (col_div xs ys) = n"
  by (simp add: col_div_def)

lemma add_fuel_per_km_Inr:
  assumes ok: "add_fuel_per_km t = Inr t2" and r: "rect t"
  shows "nrows t2 = nrows t \<and> rect t2
     \<and> (\<forall>c. c \<noteq> ''Fuel_Consumption_L'' \<longrightarrow> c \<noteq> ''Distance_KM'' \<longrightarrow> c \<noteq> ''Fuel_per_KM''
            \<longrightarrow> map_of (cols t2) c = map_of (cols t) c)
     \<and> (\<exists>fk. map_of (cols t2) ''Fuel_per_KM'' = Some fk \<and> length fk = nrows t
          \<and> (\<forall>i<nrows t. \<exists>d f.
                cell_or (F NaN) t ''Distance_KM'' i = F d
              \<and> cell_or (F NaN) t ''Fuel_Consumption_L'' i = F f
              \<and> fk ! i = F (if fgt d (Fin 0) \<and> notna d then fdiv f d else NaN)))"
proof -
  define d1 where "d1 = ensure_col t ''Fuel_Consumption_L'' (F NaN)"
  define d2 where "d2 = ensure_col d1 ''Distance_KM'' (F NaN)"
  have n: "nrows d1 = nrows t" "nrows d2 = nrows t"
    by (simp_all add: d1_def d2_def)
  have rd2: "rect d2"
    unfolding d2_def d1_def by (intro rect_ensure_col r)
  from ok obtain ds fs where ds: "num_col d2 ''Distance_KM'' = Inr ds"
    and fs: "num_col d2 ''Fuel_Consumption_L'' = Inr fs"
    and t2: "t2 = set_col d2 ''Fuel_per_KM''
               (map F (np_where (map (\<lambda>d. fgt d (Fin 0) \<and> notna d) ds) (col_div fs ds) NaN))"
    by (auto simp: add_fuel_per_km_def Let_def d1_def d2_def split: sum.splits)
  have md: "map_of (cols d2) ''Distance_KM'' = Some (map F ds)"
    using ds by (simp add: num_col_Inr_iff)
  have mf: "map_of (cols d1) ''Fuel_Consumption_L'' = Some (map F fs)"
    using fs by (simp add: num_col_Inr_iff d2_def map_of_ensure_other)
  have len: "length ds = nrows t" "length fs = nrows t"
    using rd2 ds fs n unfolding rect_def num_col_Inr_iff by fastforce+
  have cd: "F (ds ! i) = cell_or (F NaN) t ''Distance_KM'' i" if "i < nrows t" for i
  proof -
    have "F (ds ! i) = cell_or (F NaN) d1 ''Distance_KM'' i"
      using ensure_col_nth [OF md [unfolded d2_def], of i] len that n by simp
    then show ?thesis by (simp add: cell_or_def d1_def map_of_ensure_other)
  qed
  have cf: "F (fs ! i) = cell_or (F NaN) t ''Fuel_Consumption_L'' i" if "i < nrows t" for i
    using ensure_col_nth [OF mf [unfolded d1_def], of i] len that by simp
  define fk where "fk = map F (np_where (map (\<lambda>d. fgt d (Fin 0) \<and> notna d) ds) (col_div fs ds) NaN)"
  have lfk: "length fk = nrows t"
    unfolding fk_def using len by (simp add: length_np_where length_col_div)
  have A: "nrows t2 = nrows t" by (simp add: t2 n)
  have B: "rect t2" unfolding t2 fk_def [symmetric]
    by (rule rect_set_col [OF rd2]) (simp add: lfk n)
  have C: "map_of (cols t2) c = map_of (cols t) c"
    if "c \<noteq> ''Fuel_Consumption_L''" "c \<noteq> ''Distance_KM''" "c \<noteq> ''Fuel_per_KM''" for c
    using that by (simp add: t2 d2_def d1_def map_of_ensure_other)
  have D: "map_of (cols t2) ''Fuel_per_KM'' = Some fk"
    by (simp add: t2 fk_def)
  have E: "\<exists>d f. cell_or (F NaN) t ''Distance_KM'' i = F d
              \<and> cell_or (F NaN) t ''Fuel_Consumption_L'' i = F f
              \<and> fk ! i = F (if fgt d (Fin 0) \<and> notna d then fdiv f d else NaN)"
    if i: "i < nrows t" for i
  proof -
    have "fk ! i = F (if fgt (ds ! i) (Fin 0) \<and> notna (ds ! i) then fdiv (fs ! i) (ds ! i) else NaN)"
      unfolding fk_def using len i
      by (simp add: length_np_where length_col_div np_where_nth [where n = "nrows t"]
          col_div_nth [where n = "nrows t"])
    then show ?thesis
      using cd [OF i] cf [OF i] by metis
  qed
  show ?thesis
    using A B C D E lfk by simp
qed

lemma add_reliability_Inr:
  assumes ok: "add_reliability t = Inr t3" and r: "rect t"
  shows "nrows t3 = nrows t
     \<and> (\<forall>c. c \<noteq> ''Traffic_Delay_Minutes'' \<longrightarrow> c \<noteq> ''Delay_Index'' \<longrightarrow> c \<noteq> ''Reliability_Score''
            \<longrightarrow> map_of (cols t3) c = map_of (cols t) c)
     \<and> (\<exists>ds. length ds = nrows t
          \<and> (\<forall>i<nrows t. cell_or (F (Fin 0)) t ''Traffic_Delay_Minutes'' i = F (ds ! i))
          \<and> map_of (cols t3) ''Reliability_Score'' =
              Some (map (\<lambda>x. F (fsub (Fin 1)
                       (fdiv x (py_max (if ds \<noteq> [] then series_max (map (\<lambda>d. fdiv d (Fin 60)) ds)
                                        else Fin 0) (Fin (1 / 10))))))
                     (map (\<lambda>d. fdiv d (Fin 60)) ds)))"
proof -
  define d1 where "d1 = ensure_col t ''Traffic_Delay_Minutes'' (F (Fin 0))"
  have n: "nrows d1 = nrows t" by (simp add: d1_def)
  have rd1: "rect d1" unfolding d1_def by (intro rect_ensure_col r)
  from ok obtain ds where ds: "num_col d1 ''Traffic_Delay_Minutes'' = Inr ds"
    and t3: "t3 = set_col (set_col d1 ''Delay_Index'' (map F (map (\<lambda>d. fdiv d (Fin 60)) ds)))
                ''Reliability_Score''
                (map (\<lambda>x. F (fsub (Fin 1)
                       (fdiv x (py_max (if map (\<lambda>d. fdiv d (Fin 60)) ds \<noteq> []
                                        then series_max (map (\<lambda>d. fdiv d (Fin 60)) ds)
                                        else Fin 0) (Fin (1 / 10))))))
                     (map (\<lambda>d. fdiv d (Fin 60)) ds))"
    by (auto simp: add_reliability_def Let_def d1_def split: sum.splits)
  have md: "map_of (cols d1) ''Traffic_Delay_Minutes'' = Some (map F ds)"
    using ds by (simp add: num_col_Inr_iff)
  have len: "length ds = nrows t"
    using rd1 md n unfolding rect_def by fastforce
  have cd: "cell_or (F (Fin 0)) t ''Traffic_Delay_Minutes'' i = F (ds ! i)" if "i < nrows t" for i
    using ensure_col_nth [OF md [unfolded d1_def], of i] len that by simp
  have C: "map_of (cols t3) c = map_of (cols t) c"
    if "c \<noteq> ''Traffic_Delay_Minutes''" "c \<noteq> ''Delay_Index''" "c \<noteq> ''Reliability_Score''" for c
    using that by (simp add: t3 d1_def map_of_ensure_other)
  have D: "map_of (cols t3) ''Reliability_Score'' =
              Some (map (\<lambda>x. F (fsub (Fin 1)
                       (fdiv x (py_max (if ds \<noteq> [] then series_max (map (\<lambda>d. fdiv d (Fin 60)) ds)
                                        else Fin 0) (Fin (1 / 10))))))
                     (map (\<lambda>d. fdiv d (Fin 60)) ds))"
    by (simp add: t3)
  have A: "nrows t3 = nrows t" by (simp add: t3 n)
  show ?thesis
    using A C D len cd by blast
qed

lemma py_max_cases: "py_max a b = a \<or> py_max a b = b"
  by (simp add: py_max_def)

lemma fle_refl: "notna a \<Longrightarrow> fle a a"
  by (cases a) auto

lemma fle_trans: "fle a b \<Longrightarrow> fle b c \<Longrightarrow> fle a c"
  by (cases a; cases b; cases c) auto

lemma fle_py_max_left: "notna a \<Longrightarrow> notna b \<Longrightarrow> fle a (py_max a b)"
  by (cases a; cases b) (auto simp: py_max_def)

lemma fle_py_max_right: "notna a \<Longrightarrow> notna b \<Longrightarrow> fle b (py_max a b)"
  by (cases a; cases b) (auto simp: py_max_def)

lemma notna_py_max: "notna a \<Longrightarrow> notna b \<Longrightarrow> notna (py_max a b)"
  by (simp add: py_max_def)

lemma foldl_py_max:
  "notna y \<Longrightarrow> \<forall>z\<in>set ys. notna z \<Longrightarrow>
   notna (foldl py_max y ys) \<and> fle y (foldl py_max y ys)
     \<and> (\<forall>z\<in>set ys. fle z (foldl py_max y ys)) \<and> foldl py_max y ys \<in> set (y # ys)"
proof (induction ys arbitrary: y)
  case Nil
  then show ?case by (simp add: fle_refl)
next
  case (Cons a ys)
  let ?m = "py_max y a"
  have na: "notna a" and nm: "notna ?m" using Cons.prems by (simp_all add: notna_py_max)
  have ih: "notna (foldl py_max ?m ys) \<and> fle ?m (foldl py_max ?m ys)
     \<and> (\<forall>z\<in>set ys. fle z (foldl py_max ?m ys)) \<and> foldl py_max ?m ys \<in> set (?m # ys)"
    using Cons.IH [OF nm] Cons.prems(2) by simp
  have y: "fle y (foldl py_max ?m ys)"
    using fle_trans [OF fle_py_max_left [OF Cons.prems(1) na]] ih by blast
  have a: "fle a (foldl py_max ?m ys)"
    using fle_trans [OF fle_py_max_right [OF Cons.prems(1) na]] ih by blast
  have mem: "foldl py_max ?m ys \<in> set (y # a # ys)"
    using ih py_max_cases [of y a] by auto
  show ?case using ih y a mem by simp
qed

lemma series_max_ge:
  assumes "x \<in> set xs" "notna x"
  shows "notna (series_max xs) \<and> fle x (series_max xs) \<and> series_max xs \<in> set xs"
proof -
  have mem: "x \<in> set (filter notna xs)" using assms by simp
  then obtain y ys where f: "filter notna xs = y # ys" by (cases "filter notna xs") auto
  have "\<forall>z\<in>set (filter notna xs). notna z" by simp
  then have all: "notna y" "\<forall>z\<in>set ys. notna z"
    unfolding f by simp_all
  note m = foldl_py_max [OF all]
  have sm: "series_max xs = foldl py_max y ys" by (simp add: series_max_def f)
  have "fle x (foldl py_max y ys)" using mem m unfolding f by auto
  moreover have "foldl py_max y ys \<in> set xs"
  proof -
    have "foldl py_max y ys \<in> set (filter notna xs)" using m unfolding f by blast
    then show ?thesis by simp
  qed
  ultimately show ?thesis using m sm by simp
qed

lemma score_le_one:
  assumes "fle (Fin x) M" "0 \<le> x"
  shows "\<exists>s. fsub (Fin 1) (fdiv (Fin x) (py_max M (Fin (1 / 10)))) = Fin s \<and> s \<le> 1"
proof (cases M)
  case (Fin m)
  with assms have xm: "x \<le> m" by simp
  show ?thesis
  proof (cases "m < 1 / 10")
    case True
    then have "py_max M (Fin (1 / 10)) = Fin (1 / 10)" by (simp add: py_max_def Fin)
    then show ?thesis using assms(2) by (simp add: fsub_def)
  next
    case False
    then have pm: "py_max M (Fin (1 / 10)) = Fin m" and "0 < m" by (simp_all add: py_max_def Fin)
    then have "0 \<le> x / m" using assms(2) by simp
    then show ?thesis using \<open>0 < m\<close> by (simp add: pm fsub_def)
  qed
next
  case PInf
  then show ?thesis by (simp add: py_max_def fsub_def)
next
  case NInf
  with assms show ?thesis by simp
next
  case NaN
  with assms show ?thesis by simp
qed

lemma compute_metrics_stages:
  "compute_metrics t = Inr t' \<Longrightarrow>
   \<exists>t1 t2. add_total_cost t = Inr t1 \<and> add_fuel_per_km t1 = Inr t2 \<and> add_reliability t2 = Inr t'"
  by (auto simp: compute_metrics_def split: sum.splits)

lemma cell_or_cong:
  "map_of (cols a) c = map_of (cols b) c \<Longrightarrow> cell_or v a c i = cell_or v b c i"
  by (simp add: cell_or_def)

lemma floats_total: "list_all is_float xs \<Longrightarrow> \<exists>ys. floats xs = Inr ys"
proof (induction xs)
  case Nil
  then show ?case by simp
next
  case (Cons c cs)
  then show ?case by (cases c) auto
qed

lemma num_col_ensure_total:
  assumes "numeric_col t c"
  shows "\<exists>ys. num_col (ensure_col t c (F v)) c = Inr ys"
proof (cases "map_of (cols t) c")
  case None
  then have "map_of (cols (ensure_col t c (F v))) c = Some (map F (replicate (nrows t) v))"
    by (simp add: map_of_ensure_col)
  then show ?thesis by (simp only: num_col_Inr_iff [symmetric]) blast
next
  case (Some xs)
  then have "list_all is_float xs" using assms by (simp add: numeric_col_def)
  then obtain ys where "floats xs = Inr ys" using floats_total by blast
  then show ?thesis using Some by (simp add: num_col_def get_col_def map_of_ensure_col)
qed

lemma add_total_cost_total:
  assumes "numeric_col t ''Fuel_Cost_INR''" "numeric_col t ''Labor_Cost_INR''"
    "numeric_col t ''Maintenance_Cost_INR''" "numeric_col t ''Toll_Charges_INR''"
  shows "\<exists>t1. add_total_cost t = Inr t1"
proof -
  define z where "z = F (Fin 0)"
  define d1 where "d1 = ensure_col t ''Fuel_Cost_INR'' z"
  define d2 where "d2 = ensure_col d1 ''Labor_Cost_INR'' z"
  define d3 where "d3 = ensure_col d2 ''Maintenance_Cost_INR'' z"
  define df where "df = ensure_col d3 ''Toll_Charges_INR'' z"
  have fold: "foldl (\<lambda>d c. ensure_col d c (F (Fin 0))) t cost_cols = df"
    by (simp add: cost_cols_def df_def d3_def d2_def d1_def z_def)
  have k2: "numeric_col d1 ''Labor_Cost_INR''"
    using assms(2) by (simp add: numeric_col_def d1_def map_of_ensure_other)
  have k3: "numeric_col d2 ''Maintenance_Cost_INR''"
    using assms(3) by (simp add: numeric_col_def d2_def d1_def map_of_ensure_other)
  have k4: "numeric_col d3 ''Toll_Charges_INR''"
    using assms(4) by (simp add: numeric_col_def d3_def d2_def d1_def map_of_ensure_other)
  obtain x1 where "num_col d1 ''Fuel_Cost_INR'' = Inr x1"
    using num_col_ensure_total [OF assms(1)] unfolding d1_def z_def by blast
  then have x1: "num_col df ''Fuel_Cost_INR'' = Inr x1"
    by (simp add: num_col_Inr_iff df_def d3_def d2_def map_of_ensure_other)
  obtain x2 where "num_col d2 ''Labor_Cost_INR'' = Inr x2"
    using num_col_ensure_total [OF k2] unfolding d2_def z_def by blast
  then have x2: "num_col df ''Labor_Cost_INR'' = Inr x2"
    by (simp add: num_col_Inr_iff df_def d3_def map_of_ensure_other)
  obtain x3 where "num_col d3 ''Maintenance_Cost_INR'' = Inr x3"
    using num_col_ensure_total [OF k3] unfolding d3_def z_def by blast
  then have x3: "num_col df ''Maintenance_Cost_INR'' = Inr x3"
    by (simp add: num_col_Inr_iff df_def map_of_ensure_other)
  obtain x4 where x4: "num_col df ''Toll_Charges_INR'' = Inr x4"
    using num_col_ensure_total [OF k4] unfolding df_def z_def by blast
  have "num_cols df cost_cols = Inr [x1, x2, x3, x4]"
    by (simp add: cost_cols_def x1 x2 x3 x4)
  then show ?thesis
    by (simp add: add_total_cost_def fold Let_def)
qed

lemma add_fuel_per_km_total:
  assumes "numeric_col t ''Fuel_Consumption_L''" "numeric_col t ''Distance_KM''"
  shows "\<exists>t2. add_fuel_per_km t = Inr t2"
proof -
  define d1 where "d1 = ensure_col t ''Fuel_Consumption_L'' (F NaN)"
  define d2 where "d2 = ensure_col d1 ''Distance_KM'' (F NaN)"
  have k2: "numeric_col d1 ''Distance_KM''"
    using assms(2) by (simp add: numeric_col_def d1_def map_of_ensure_other)
  obtain fs where "num_col d1 ''Fuel_Consumption_L'' = Inr fs"
    using num_col_ensure_total [OF assms(1)] unfolding d1_def by blast
  then have fs: "num_col d2 ''Fuel_Consumption_L'' = Inr fs"
    by (simp add: num_col_Inr_iff d2_def map_of_ensure_other)
  obtain ds where ds: "num_col d2 ''Distance_KM'' = Inr ds"
    using num_col_ensure_total [OF k2] unfolding d2_def by blast
  show ?thesis
    using fs ds by (simp add: add_fuel_per_km_def Let_def d1_def [symmetric] d2_def [symmetric])
qed

lemma add_reliability_total:
  assumes "numeric_col t ''Traffic_Delay_Minutes''"
  shows "\<exists>t3. add_reliability t = Inr t3"
proof -
  obtain ds where "num_col (ensure_col t ''Traffic_Delay_Minutes'' (F (Fin 0))) ''Traffic_Delay_Minutes'' = Inr ds"
    using num_col_ensure_total [OF assms] by blast
  then show ?thesis
    by (simp add: add_reliability_def Let_def)
qed

lemma compute_metrics_total:
  assumes r: "rect t" and num: "metrics_inputs_numeric t"
  shows "\<exists>t'. compute_metrics t = Inr t'"
proof -
  have k: "numeric_col t ''Fuel_Cost_INR''" "numeric_col t ''Labor_Cost_INR''"
    "numeric_col t ''Maintenance_Cost_INR''" "numeric_col t ''Toll_Charges_INR''"
    "numeric_col t ''Fuel_Consumption_L''" "numeric_col t ''Distance_KM''"
    "numeric_col t ''Traffic_Delay_Minutes''"
    using num by (simp_all add: metrics_inputs_numeric_def cost_cols_def)
  obtain t1 where t1: "add_total_cost t = Inr t1"
    using add_total_cost_total k(1-4) by blast
  note s1 = add_total_cost_Inr [OF t1 r]
  have same1: "map_of (cols t1) c = map_of (cols t) c"
    if "c \<notin> set cost_cols" "c \<noteq> ''Total_Cost_INR''" for c
    using s1 that by blast
  have "numeric_col t1 ''Fuel_Consumption_L''" "numeric_col t1 ''Distance_KM''"
    using k(5,6) by (simp_all add: numeric_col_def same1 cost_cols_def)
  then obtain t2 where t2: "add_fuel_per_km t1 = Inr t2"
    using add_fuel_per_km_total by blast
  have r1: "rect t1" using s1 by blast
  note s2 = add_fuel_per_km_Inr [OF t2 r1]
  have "map_of (cols t2) ''Traffic_Delay_Minutes'' = map_of (cols t1) ''Traffic_Delay_Minutes''"
    using s2 by simp
  then have "numeric_col t2 ''Traffic_Delay_Minutes''"
    using k(7) by (simp add: numeric_col_def same1 cost_cols_def)
  then obtain t3 where "add_reliability t2 = Inr t3"
    using add_reliability_total by blast
  then show ?thesis by (simp add: compute_metrics_def t1 t2)
qed

lemma compute_metrics_Inl: "compute_metrics t = Inl e \<Longrightarrow> e = TypeError \<or> (\<exists>c. e = KeyError c)"
proof -
  have nc: "e = TypeError \<or> (\<exists>c. e = KeyError c)" if "num_col a c = Inl e" for a c e
    using num_col_Inl [OF that] by blast
  have ncs: "e = TypeError \<or> (\<exists>c. e = KeyError c)" if "num_cols a cs = Inl e" for a cs e
    using that by (induction cs) (auto split: sum.splits dest: nc)
  assume "compute_metrics t = Inl e"
  then show ?thesis
    by (auto simp: compute_metrics_def add_total_cost_def add_fuel_per_km_def add_reliability_def
        Let_def split: sum.splits dest: nc ncs)
qed

lemma round64_zero [simp]: "round64 0 = Fin 0"
  by (simp add: round64_def)




lemmas metrics_defs =
  compute_metrics_def add_total_cost_def add_fuel_per_km_def add_reliability_def cost_cols_def
  ensure_col_def has_col_def set_scalar_def set_col_def num_col_def get_col_def result_col_def
  sum_axis1_def fadd64_def np_where_def col_div_def series_max_def py_max_def fsub_def

subsection \<open>The wrapper\<close>

lemma compute_metrics_fuel_per_km:
  assumes r: "rect t" and ok: "compute_metrics t = Inr t'"
  shows "\<exists>fk. get_col t' ''Fuel_per_KM'' = Inr fk \<and> length fk = nrows t
     \<and> (\<forall>i<nrows t. \<exists>d f.
            cell_or (F NaN) t ''Distance_KM'' i = F d
          \<and> cell_or (F NaN) t ''Fuel_Consumption_L'' i = F f
          \<and> fk ! i = F (if fgt d (Fin 0) \<and> notna d then fdiv f d else NaN))"
proof -
  from ok obtain t1 t2 where t1: "add_total_cost t = Inr t1"
    and t2: "add_fuel_per_km t1 = Inr t2" and t3: "add_reliability t2 = Inr t'"
    using compute_metrics_stages by blast
  note s1 = add_total_cost_Inr [OF t1 r]
  have r1: "rect t1" and n1: "nrows t1 = nrows t" using s1 by blast+
  note s2 = add_fuel_per_km_Inr [OF t2 r1]
  have r2: "rect t2" using s2 by blast
  note s3 = add_reliability_Inr [OF t3 r2]
  have "map_of (cols t1) ''Distance_KM'' = map_of (cols t) ''Distance_KM''"
    using s1 by (simp add: cost_cols_def)
  then have same_d: "cell_or v t1 ''Distance_KM'' i = cell_or v t ''Distance_KM'' i" for v i
    by (rule cell_or_cong)
  have "map_of (cols t1) ''Fuel_Consumption_L'' = map_of (cols t) ''Fuel_Consumption_L''"
    using s1 by (simp add: cost_cols_def)
  then have same_f: "cell_or v t1 ''Fuel_Consumption_L'' i = cell_or v t ''Fuel_Consumption_L'' i"
    for v i by (rule cell_or_cong)
  from s2 obtain fk where fk: "map_of (cols t2) ''Fuel_per_KM'' = Some fk"
    and lfk: "length fk = nrows t"
    and row: "\<forall>i<nrows t. \<exists>d f. cell_or (F NaN) t ''Distance_KM'' i = F d
            \<and> cell_or (F NaN) t ''Fuel_Consumption_L'' i = F f
            \<and> fk ! i = F (if fgt d (Fin 0) \<and> notna d then fdiv f d else NaN)"
    unfolding n1 same_d same_f by blast
  have "map_of (cols t') ''Fuel_per_KM'' = map_of (cols t2) ''Fuel_per_KM''"
    using s3 by simp
  then have g: "get_col t' ''Fuel_per_KM'' = Inr fk"
    by (simp add: get_col_Inr_iff fk)
  show ?thesis
    by (rule exI [of _ fk], intro conjI) (rule g lfk row)+
qed



lemma series_div_Inr:
  "series_div xs ys = Inr q \<Longrightarrow> length xs = n \<Longrightarrow> length ys = n \<Longrightarrow> length q = n"
  by (auto simp: series_div_def col_div_def split: sum.splits dest!: floats_InrD)

lemma derive_fuel_per_km_rect:
  assumes "derive_fuel_per_km X = Inr X1" "rect X"
  shows "rect X1 \<and> nrows X1 = nrows X"
proof (cases "\<not> has_col X ''Fuel_per_KM'' \<and> has_col X ''Fuel_Consumption_L''")
  case False
  with assms show ?thesis by (auto simp: derive_fuel_per_km_def)
next
  case True
  with assms(1) obtain fuel distance q where f: "map_of (cols X) ''Fuel_Consumption_L'' = Some fuel"
    and d: "map_of (cols X) ''Distance_KM'' = Some distance"
    and q: "series_div fuel (map replace_0_1 distance) = Inr q"
    and X1: "X1 = set_col X ''Fuel_per_KM'' q"
    by (auto simp: derive_fuel_per_km_def get_col_def split: option.splits sum.splits)
  have "length fuel = nrows X" "length distance = nrows X"
    using assms(2) f d unfolding rect_def by blast+
  then have "length q = nrows X"
    using series_div_Inr [OF q, of "nrows X"] by simp
  then show ?thesis using assms(2) by (simp add: X1 rect_set_col)
qed

lemma add_weather_num_rect: "rect X \<Longrightarrow> rect (add_weather_num X) \<and> nrows (add_weather_num X) = nrows X"
  by (auto simp: add_weather_num_def set_scalar_def rect_def split: option.splits)

lemma foldl_ensure_col_rect:
  "rect X \<Longrightarrow> rect (foldl (\<lambda>X f. ensure_col X f v) X fs)
     \<and> nrows (foldl (\<lambda>X f. ensure_col X f v) X fs) = nrows X"
  by (induction fs arbitrary: X) (simp_all add: rect_ensure_col)

lemma has_col_ensure_col: "has_col (ensure_col X f v) g \<longleftrightarrow> g = f \<or> has_col X g"
  by (auto simp: has_col_def map_of_ensure_col)

lemma has_col_foldl_ensure_col:
  "has_col (foldl (\<lambda>X f. ensure_col X f v) X fs) g \<longleftrightarrow> g \<in> set fs \<or> has_col X g"
  by (induction fs arbitrary: X) (auto simp: has_col_ensure_col)

lemma get_cols_Inr:
  "get_cols t fs = Inr cs \<Longrightarrow>
   length cs = length fs \<and> (\<forall>c\<in>set cs. \<exists>f. map_of (cols t) f = Some c)"
proof (induction fs arbitrary: cs)
  case Nil
  then show ?case by auto
next
  case (Cons f fs)
  then show ?case
    by (auto simp: get_col_Inr_iff split: sum.splits)
qed

lemma get_cols_total: "\<forall>f\<in>set fs. has_col t f \<Longrightarrow> \<exists>cs. get_cols t fs = Inr cs"
  by (induction fs) (auto simp: has_col_def get_col_def)

lemma fillna_zero_not_missing: "fillna (F (Fin 0)) c \<noteq> F NaN"
proof (cases c)
  case (F x)
  then show ?thesis by (cases x) auto
next
  case (S s)
  then show ?thesis by simp
qed

lemma preprocess_dense:
  assumes r: "rect df" and ok: "preprocess features df = Inr Xp"
  shows "\<exists>m. Xp = Rows m \<and> length m = nrows df
     \<and> (\<forall>row\<in>set m. length row = length features \<and> F NaN \<notin> set row)"
proof -
  from ok obtain X1 where X1: "derive_fuel_per_km df = Inr X1"
    by (auto simp: preprocess_def split: sum.splits)
  define X3 where "X3 = foldl (\<lambda>X f. ensure_col X f (F (Fin 0))) (add_weather_num X1) features"
  from ok X1 obtain cs where cs: "get_cols X3 features = Inr cs"
    and Xp: "Xp = Rows (to_rows (nrows X3) (map (map (fillna (F (Fin 0)))) cs))"
    by (auto simp: preprocess_def Let_def X3_def split: sum.splits)
  have r1: "rect X1" "nrows X1 = nrows df"
    using derive_fuel_per_km_rect [OF X1 r] by blast+
  have r3: "rect X3" and n3: "nrows X3 = nrows df"
    unfolding X3_def using foldl_ensure_col_rect add_weather_num_rect r1 by metis+
  have lcs: "length cs = length features"
    and each: "\<forall>c\<in>set cs. length c = nrows df"
    using get_cols_Inr [OF cs] r3 n3 unfolding rect_def by auto
  define m where "m = to_rows (nrows X3) (map (map (fillna (F (Fin 0)))) cs)"
  have lm: "length m = nrows df" by (simp add: m_def to_rows_def n3)
  have rows: "length row = length features \<and> F NaN \<notin> set row" if "row \<in> set m" for row
  proof -
    from that obtain i where i: "i < nrows df"
      and row: "row = map (\<lambda>c. c ! i) (map (map (fillna (F (Fin 0)))) cs)"
      by (auto simp: m_def to_rows_def n3)
    have "x \<noteq> F NaN" if "x \<in> set row" for x
    proof -
      from that row obtain c where "c \<in> set cs" "x = map (fillna (F (Fin 0))) c ! i" by auto
      then show ?thesis using each i by (simp add: fillna_zero_not_missing)
    qed
    then show ?thesis using row lcs by auto
  qed
  show ?thesis using Xp lm rows unfolding m_def [symmetric] by blast
qed

lemma preprocess_total:
  assumes "derive_fuel_per_km df = Inr X1"
  shows "\<exists>Xp. preprocess features df = Inr Xp"
proof -
  define X3 where "X3 = foldl (\<lambda>X f. ensure_col X f (F (Fin 0))) (add_weather_num X1) features"
  have "\<forall>f\<in>set features. has_col X3 f"
    by (simp add: X3_def has_col_foldl_ensure_col)
  then obtain cs where "get_cols X3 features = Inr cs"
    using get_cols_total by blast
  then show ?thesis
    using assms by (simp add: preprocess_def Let_def X3_def)
qed

lemma DummyModel_predict_zeros:
  "DummyModel_predict X = Inr (case py_len X of Inr n \<Rightarrow> replicate n (Fin 0) | Inl e \<Rightarrow> [Fin 0])"
  by (simp add: DummyModel_predict_def split: sum.splits)

lemma stub_wrapper_rows: "stub_wrapper (Rows m) = Inr (replicate (length m) (Fin 0))"
  by (simp add: stub_wrapper_def PredictWrapper_predict_def DummyModel_predict_def)

lemma stub_wrapper_unsized: "stub_wrapper Unsized = Inr [Fin 0]"
  by (simp add: stub_wrapper_def PredictWrapper_predict_def DummyModel_predict_def)

lemma stub_wrapper_frame:
  assumes "rect df" "derive_fuel_per_km df = Inr X1"
  shows "stub_wrapper (Frame df) = Inr (replicate (nrows df) (Fin 0))"
proof -
  obtain Xp where Xp: "preprocess model_features df = Inr Xp"
    using preprocess_total [OF assms(2)] by blast
  then obtain m where "Xp = Rows m" "length m = nrows df"
    using preprocess_dense [OF assms(1)] by blast
  then show ?thesis
    using Xp by (simp add: stub_wrapper_def PredictWrapper_predict_def DummyModel_predict_def)
qed

lemma load_model_without_imports: "\<not> imports_available env \<Longrightarrow> load_model env = stub_wrapper"
  by (simp add: load_model_def)

lemma load_model_training_fails:
  "imports_available env \<Longrightarrow> saved_model env = None \<Longrightarrow> train env = Inl e \<Longrightarrow>
   load_model env = stub_wrapper"
  by (simp add: load_model_def)

lemma train_missing_file:
  "files env (csv_path (data_dir env) ''orders.csv'') = None \<Longrightarrow> \<exists>e. train env = Inl e"
  by (simp add: train_def load_and_merge_data_def read_csv_def)

lemma load_model_without_data:
  "saved_model env = None \<Longrightarrow> files env (csv_path (data_dir env) ''orders.csv'') = None \<Longrightarrow>
   load_model env = stub_wrapper"
  using train_missing_file [of env] by (auto simp: load_model_def)

subsection \<open>The estimator, the ranker and the merger\<close>






lemma priority_enrich: "map priority (enrich crew xs) = map priority xs"
  by (cases xs) (auto simp: enrich_def split: option.splits sum.splits)

lemma generate_corrective_actions_Inr:
  assumes "generate_corrective_actions ranking df m base crew = Inr acts"
  shows "\<exists>actions1 s f. acts = sort_key priority (enrich crew (actions1 @ [shift_action s, fuel_action f]))
     \<and> (actions1 = [] \<or> (\<exists>r e. actions1 = [reroute_action r e]))"
proof -
  define route_col where "route_col = (if has_col df ''Route'' then ''Route'' else ''Order_ID'')"
  from assms obtain rd where rd: "ranking df route_col ''Traffic_Delay_Minutes'' = Inr rd"
    by (auto simp: generate_corrective_actions_def Let_def route_col_def split: sum.splits)
  show ?thesis
  proof (cases rd)
    case Nil
    with assms rd obtain s f where
      "acts = sort_key priority (enrich crew ([] @ [shift_action s, fuel_action f]))"
      by (auto simp: generate_corrective_actions_def Let_def route_col_def split: sum.splits)
    then show ?thesis by blast
  next
    case (Cons top others)
    with assms rd obtain e s f where
      "acts = sort_key priority (enrich crew ([reroute_action top e] @ [shift_action s, fuel_action f]))"
      by (auto simp: generate_corrective_actions_def Let_def route_col_def split: sum.splits)
    then show ?thesis by blast
  qed
qed

lemma sort_three_priorities:
  assumes "length xs = 3" "set (map priority xs) = {1, 2, 3}"
  shows "map priority (sort_key priority xs) = [1, 2, 3]"
proof -
  let ?ys = "map priority (sort_key priority xs)"
  have s: "sorted ?ys" by simp
  have st: "set ?ys = {1, 2, 3}" using assms(2) by simp
  have "card (set ?ys) = length ?ys" using assms(1) st by simp
  then have d: "distinct ?ys" by (rule card_distinct)
  have "sorted [1, 2, 3 :: int]" "distinct [1, 2, 3 :: int]" "set [1, 2, 3 :: int] = {1, 2, 3}"
    by auto
  then show ?thesis
    using sorted_distinct_set_unique [OF s d, of "[1, 2, 3]"] st by simp
qed

lemma read_csv_missing:
  "fs (csv_path dd name) = None \<Longrightarrow>
   read_csv dd fs name = Inl (FileNotFoundError (''Required data file not found: '' @ csv_path dd name))"
  by (simp add: read_csv_def)

lemma read_csv_present: "fs (csv_path dd name) = Some parsed \<Longrightarrow> read_csv dd fs name = parsed"
  by (simp add: read_csv_def)




section \<open>Properties of the Metrics Engine\<close>

text \<open>
  C1 (as stated in the specification): every row of the frame returned by
  \<open>compute_metrics\<close> has \<open>Reliability_Score <= 1.0\<close>. This fails on a frame whose only
  delay is \<open>-60\<close> minutes: the delay index is \<open>-1\<close>, the denominator is floored at
  \<open>0.1\<close>, and the score is \<open>1 - (-1 / 0.1) = 11\<close>.
\<close>

theorem reliability_bound_counterexample:
  "wf_table ex_negative_delay
   \<and> result_col (compute_metrics ex_negative_delay) ''Reliability_Score'' = Inr [F (Fin 11)]
   \<and> \<not> fle (Fin 11) (Fin 1)"
  by (simp add: ex_negative_delay_def wf_table_def metrics_defs Let_def)

text \<open>
  C1 (amended): in the frame returned by \<open>compute_metrics\<close>, every row whose
  \<open>Traffic_Delay_Minutes\<close> is a finite number that is not negative (an absent column
  counting as 0) has a finite \<open>Reliability_Score\<close> of at most 1; and when every row's
  \<open>Traffic_Delay_Minutes\<close> is 0, every row's \<open>Reliability_Score\<close> is exactly 1.
\<close>

theorem reliability_bound:
  assumes wf: "wf_table t" and ok: "compute_metrics t = Inr t'"
  shows "\<exists>rs. get_col t' ''Reliability_Score'' = Inr rs \<and> length rs = nrows t
     \<and> (\<forall>i<nrows t. \<forall>d. cell_or (F (Fin 0)) t ''Traffic_Delay_Minutes'' i = F (Fin d) \<longrightarrow> 0 \<le> d
            \<longrightarrow> (\<exists>s. rs ! i = F (Fin s) \<and> s \<le> 1))
     \<and> ((\<forall>i<nrows t. cell_or (F (Fin 0)) t ''Traffic_Delay_Minutes'' i = F (Fin 0))
            \<longrightarrow> (\<forall>i<nrows t. rs ! i = F (Fin 1)))"
proof -
  from ok obtain t1 t2 where t1: "add_total_cost t = Inr t1"
    and t2: "add_fuel_per_km t1 = Inr t2" and t3: "add_reliability t2 = Inr t'"
    using compute_metrics_stages by blast
  note r = wf_table_rect [OF wf]
  note s1 = add_total_cost_Inr [OF t1 r]
  have r1: "rect t1" and n1: "nrows t1 = nrows t" using s1 by blast+
  note s2 = add_fuel_per_km_Inr [OF t2 r1]
  have r2: "rect t2" and n2: "nrows t2 = nrows t" using s2 n1 by auto
  have "map_of (cols t2) ''Traffic_Delay_Minutes'' = map_of (cols t1) ''Traffic_Delay_Minutes''"
    using s2 by simp
  also have "\<dots> = map_of (cols t) ''Traffic_Delay_Minutes''"
    using s1 by (simp add: cost_cols_def)
  finally have same: "cell_or v t2 ''Traffic_Delay_Minutes'' i = cell_or v t ''Traffic_Delay_Minutes'' i"
    for v i by (rule cell_or_cong)
  define di where "di = (\<lambda>ds. map (\<lambda>d. fdiv d (Fin 60)) ds)"
  define denom where
    "denom = (\<lambda>ds. py_max (if ds \<noteq> [] then series_max (di ds) else Fin 0) (Fin (1 / 10)))"
  from add_reliability_Inr [OF t3 r2]
  obtain ds where len: "length ds = nrows t"
    and cd: "\<And>i. i < nrows t \<Longrightarrow> cell_or (F (Fin 0)) t ''Traffic_Delay_Minutes'' i = F (ds ! i)"
    and rs: "map_of (cols t') ''Reliability_Score'' =
               Some (map (\<lambda>x. F (fsub (Fin 1) (fdiv x (denom ds)))) (di ds))"
    unfolding n2 same di_def denom_def by blast
  define rs where "rs = map (\<lambda>x. F (fsub (Fin 1) (fdiv x (denom ds)))) (di ds)"
  have g: "get_col t' ''Reliability_Score'' = Inr rs"
    by (simp add: get_col_Inr_iff rs rs_def)
  have lrs: "length rs = nrows t" by (simp add: rs_def di_def len)
  have nth: "rs ! i = F (fsub (Fin 1) (fdiv (fdiv (ds ! i) (Fin 60)) (denom ds)))"
    if "i < nrows t" for i
    using that len by (simp add: rs_def di_def)
  have bound: "\<exists>s. rs ! i = F (Fin s) \<and> s \<le> 1"
    if i: "i < nrows t" and c: "cell_or (F (Fin 0)) t ''Traffic_Delay_Minutes'' i = F (Fin d)"
      and d: "0 \<le> d" for i d
  proof -
    have dsi: "ds ! i = Fin d" using cd [OF i] c by simp
    have ne: "ds \<noteq> []" using i len by auto
    have mem: "Fin (d / 60) \<in> set (di ds)"
    proof -
      have "di ds ! i \<in> set (di ds)" using i len by (simp add: di_def)
      moreover have "di ds ! i = Fin (d / 60)" using i len dsi by (simp add: di_def)
      ultimately show ?thesis by simp
    qed
    have le: "fle (Fin (d / 60)) (series_max (di ds))"
      using series_max_ge [OF mem] by simp
    have nn: "0 \<le> d / 60" using d by simp
    have dn: "denom ds = py_max (series_max (di ds)) (Fin (1 / 10))"
      using ne by (simp add: denom_def)
    from score_le_one [OF le nn]
    obtain s where "fsub (Fin 1) (fdiv (Fin (d / 60)) (denom ds)) = Fin s" "s \<le> 1"
      unfolding dn by blast
    then show ?thesis using nth [OF i] dsi by simp
  qed
  have ones: "rs ! i = F (Fin 1)"
    if all: "\<forall>j<nrows t. cell_or (F (Fin 0)) t ''Traffic_Delay_Minutes'' j = F (Fin 0)"
      and i: "i < nrows t" for i
  proof -
    have z: "ds ! j = Fin 0" if "j < nrows t" for j using cd [OF that] all that by simp
    have ne: "ds \<noteq> []" using i len by auto
    have allz: "\<forall>x\<in>set (di ds). x = Fin 0"
      using z len by (auto simp: di_def in_set_conv_nth)
    have mem: "Fin 0 \<in> set (di ds)"
    proof -
      have "di ds ! i \<in> set (di ds)" using i len by (simp add: di_def)
      then show ?thesis using allz by auto
    qed
    have "series_max (di ds) \<in> set (di ds)"
      using series_max_ge [OF mem] by simp
    then have "series_max (di ds) = Fin 0" using allz by blast
    then have "denom ds = Fin (1 / 10)" by (simp add: denom_def ne py_max_def)
    then show ?thesis using nth [OF i] z [OF i] by (simp add: fsub_def)
  qed
  show ?thesis
    using g lrs bound ones by blast
qed

theorem reliability_bound_witness:
  "wf_table ex_delays \<and> compute_metrics ex_delays = Inr ex_delays_out
   \<and> cell_or (F (Fin 0)) ex_delays ''Traffic_Delay_Minutes'' 0 = F (Fin 30) \<and> (0::real) \<le> 30
   \<and> get_col ex_delays_out ''Reliability_Score'' = Inr [F (Fin 0), F (Fin 1)]
   \<and> wf_table ex_no_delay \<and> compute_metrics ex_no_delay = Inr ex_no_delay_out
   \<and> cell_or (F (Fin 0)) ex_no_delay ''Traffic_Delay_Minutes'' 0 = F (Fin 0)
   \<and> cell_or (F (Fin 0)) ex_no_delay ''Traffic_Delay_Minutes'' 1 = F (Fin 0)
   \<and> get_col ex_no_delay_out ''Reliability_Score'' = Inr [F (Fin 1), F (Fin 1)]"
proof -
  have a: "wf_table ex_delays"
    by (simp add: ex_delays_def wf_table_def)
  have b: "compute_metrics ex_delays = Inr ex_delays_out"
    by (simp add: ex_delays_def ex_delays_out_def metrics_defs Let_def numeral_2_eq_2)
  have c: "wf_table ex_no_delay"
    by (simp add: ex_no_delay_def wf_table_def)
  have d: "compute_metrics ex_no_delay = Inr ex_no_delay_out"
    by (simp add: ex_no_delay_def ex_no_delay_out_def metrics_defs Let_def numeral_2_eq_2)
  have e: "cell_or (F (Fin 0)) ex_delays ''Traffic_Delay_Minutes'' 0 = F (Fin 30)"
    "cell_or (F (Fin 0)) ex_no_delay ''Traffic_Delay_Minutes'' 0 = F (Fin 0)"
    "cell_or (F (Fin 0)) ex_no_delay ''Traffic_Delay_Minutes'' 1 = F (Fin 0)"
    by (simp_all add: cell_or_def ex_delays_def ex_no_delay_def)
  have f: "get_col ex_delays_out ''Reliability_Score'' = Inr [F (Fin 0), F (Fin 1)]"
    "get_col ex_no_delay_out ''Reliability_Score'' = Inr [F (Fin 1), F (Fin 1)]"
    by (simp_all add: get_col_def ex_delays_out_def ex_no_delay_out_def)
  from reliability_bound [OF a b] reliability_bound [OF c d] a b c d e f
  show ?thesis by simp
qed

text \<open>
  C2: for a frame with unique labels, \<open>compute_metrics\<close> never fails with a division
  error and returns whenever the columns it reads are numeric; in the frame it returns,
  every row whose \<open>Distance_KM\<close> is at most 0 or missing (the column being absent
  counts as missing) has a missing \<open>Fuel_per_KM\<close>: not an infinity, not zero. The
  witness is the row with distance 0 and fuel 10.
\<close>

theorem fuel_per_km_division_safe:
  assumes wf: "wf_table t"
  shows "compute_metrics t \<noteq> Inl ZeroDivisionError
     \<and> (metrics_inputs_numeric t \<longrightarrow> (\<exists>t'. compute_metrics t = Inr t'))
     \<and> (\<forall>t'. compute_metrics t = Inr t' \<longrightarrow>
          (\<exists>fk. get_col t' ''Fuel_per_KM'' = Inr fk \<and> length fk = nrows t
             \<and> (\<forall>i<nrows t. \<forall>d. cell_or (F NaN) t ''Distance_KM'' i = F d
                    \<longrightarrow> fle d (Fin 0) \<or> d = NaN \<longrightarrow> fk ! i = F NaN)))"
proof -
  note r = wf_table_rect [OF wf]
  have A: "compute_metrics t \<noteq> Inl ZeroDivisionError"
    using compute_metrics_Inl [of t ZeroDivisionError] by auto
  have B: "metrics_inputs_numeric t \<longrightarrow> (\<exists>t'. compute_metrics t = Inr t')"
    using compute_metrics_total [OF r] by blast
  have C: "\<exists>fk. get_col t' ''Fuel_per_KM'' = Inr fk \<and> length fk = nrows t
             \<and> (\<forall>i<nrows t. \<forall>d. cell_or (F NaN) t ''Distance_KM'' i = F d
                    \<longrightarrow> fle d (Fin 0) \<or> d = NaN \<longrightarrow> fk ! i = F NaN)"
    if ok: "compute_metrics t = Inr t'" for t'
  proof -
    from compute_metrics_fuel_per_km [OF r ok]
    obtain fk where g: "get_col t' ''Fuel_per_KM'' = Inr fk" and lfk: "length fk = nrows t"
      and row: "\<And>i. i < nrows t \<Longrightarrow> \<exists>d f. cell_or (F NaN) t ''Distance_KM'' i = F d
              \<and> cell_or (F NaN) t ''Fuel_Consumption_L'' i = F f
              \<and> fk ! i = F (if fgt d (Fin 0) \<and> notna d then fdiv f d else NaN)"
      by blast
    have miss: "fk ! i = F NaN"
      if i: "i < nrows t" and c: "cell_or (F NaN) t ''Distance_KM'' i = F d"
        and d: "fle d (Fin 0) \<or> d = NaN" for i d
    proof -
      from row [OF i] c obtain f where
        "fk ! i = F (if fgt d (Fin 0) \<and> notna d then fdiv f d else NaN)" by auto
      moreover have "\<not> (fgt d (Fin 0) \<and> notna d)" using d by (cases d) auto
      ultimately show ?thesis by simp
    qed
    show ?thesis using g lfk miss by blast
  qed
  show ?thesis using A B C by blast
qed

theorem fuel_per_km_division_safe_witness:
  "wf_table ex_zero_distance \<and> metrics_inputs_numeric ex_zero_distance
   \<and> compute_metrics ex_zero_distance = Inr ex_zero_distance_out
   \<and> (0::nat) < nrows ex_zero_distance
   \<and> cell_or (F NaN) ex_zero_distance ''Distance_KM'' 0 = F (Fin 0) \<and> fle (Fin 0) (Fin 0)
   \<and> get_col ex_zero_distance_out ''Fuel_per_KM'' = Inr [F NaN]"
proof -
  have a: "wf_table ex_zero_distance"
    by (simp add: ex_zero_distance_def wf_table_def)
  have b: "metrics_inputs_numeric ex_zero_distance"
    by (simp add: ex_zero_distance_def metrics_inputs_numeric_def numeric_col_def cost_cols_def)
  have c: "compute_metrics ex_zero_distance = Inr ex_zero_distance_out"
    by (simp add: ex_zero_distance_def ex_zero_distance_out_def metrics_defs Let_def)
  have d: "cell_or (F NaN) ex_zero_distance ''Distance_KM'' 0 = F (Fin 0)"
    "(0::nat) < nrows ex_zero_distance"
    by (simp_all add: cell_or_def ex_zero_distance_def)
  have e: "get_col ex_zero_distance_out ''Fuel_per_KM'' = Inr [F NaN]"
    by (simp add: get_col_def ex_zero_distance_out_def)
  from fuel_per_km_division_safe [OF a] a b c d e
  show ?thesis by simp
qed




section \<open>Properties of the Delay Model Wrapper\<close>



text \<open>
  C3 (a defect of the code): the claim is that \<open>predict\<close> never fails for an absent
  column, a frame with \<open>Fuel_Consumption_L\<close> and without \<open>Fuel_per_KM\<close> and \<open>Distance_KM\<close>
  included. On that frame the guard of the derivation holds, \<open>X["Distance_KM"]\<close> is read
  and raises \<open>KeyError\<close>, before the loop that synthesizes the absent features is
  reached; whatever the underlying model, \<open>predict\<close> raises.
\<close>

theorem predict_absent_distance_raises:
  "wf_table ex_fuel_only
   \<and> \<not> has_col ex_fuel_only ''Fuel_per_KM'' \<and> \<not> has_col ex_fuel_only ''Distance_KM''
   \<and> preprocess model_features ex_fuel_only = Inl (KeyError ''Distance_KM'')
   \<and> PredictWrapper_predict inner model_features (Frame ex_fuel_only) = Inl (KeyError ''Distance_KM'')"
  by (simp add: ex_fuel_only_def wf_table_def has_col_def preprocess_def derive_fuel_per_km_def
      get_col_def PredictWrapper_predict_def)

text \<open>
  C6 (the same defect): the stub behind the wrapper returns one zero per row for an
  array-like, a single zero for an object without a length, and one zero per row for
  every frame whose preprocessing returns (the three lemmas \<open>stub_wrapper_rows\<close>,
  \<open>stub_wrapper_unsized\<close> and \<open>stub_wrapper_frame\<close>). The claim says so for every raw
  frame; on a frame of two rows with \<open>Fuel_Consumption_L\<close> and without \<open>Distance_KM\<close> and
  \<open>Fuel_per_KM\<close> the model \<open>load_model\<close> falls back to, here for want of data files,
  raises \<open>KeyError\<close> instead of returning two zeros.
\<close>

theorem stub_wrapper_raises_on_frame:
  "load_model ex_no_data = stub_wrapper
   \<and> py_len (Frame ex_two_rows_fuel_only) = Inr 2
   \<and> stub_wrapper (Frame ex_two_rows_fuel_only) = Inl (KeyError ''Distance_KM'')
   \<and> stub_wrapper (Frame ex_two_rows_fuel_only) \<noteq> Inr (replicate 2 (Fin 0))"
proof -
  have "load_model ex_no_data = stub_wrapper"
    by (rule load_model_without_data) (simp_all add: ex_no_data_def)
  moreover have "stub_wrapper (Frame ex_two_rows_fuel_only) = Inl (KeyError ''Distance_KM'')"
    by (simp add: ex_two_rows_fuel_only_def stub_wrapper_def PredictWrapper_predict_def
        preprocess_def derive_fuel_per_km_def has_col_def get_col_def)
  ultimately show ?thesis
    by (simp add: ex_two_rows_fuel_only_def)
qed

section \<open>Properties of the Impact Estimator and the Action Ranker\<close>



text \<open>
  C10: a scale directive for a name that is not a column of the base row leaves the
  copy as it is, so the estimate is that of the empty change; a new value for such a
  name adds the column, with the value in every row.
\<close>

theorem scale_of_absent_column_ignored:
  assumes "\<not> has_col base k"
  shows "apply_changes base [(k, Mul factor)] = Inr base
     \<and> estimate_impact m base [(k, Mul factor)] = estimate_impact m base []
     \<and> apply_changes base [(k, SetTo v)] = Inr (set_scalar base k v)
     \<and> has_col (set_scalar base k v) k
     \<and> get_col (set_scalar base k v) k = Inr (replicate (nrows base) v)"
  using assms
  by (simp add: estimate_impact_def has_col_def get_col_def set_scalar_def)

theorem scale_of_absent_column_ignored_witness:
  "\<not> has_col ex_base_input ''Speed_KMH''
   \<and> apply_changes ex_base_input [(''Speed_KMH'', Mul (Fin 2))] = Inr ex_base_input
   \<and> estimate_impact ex_model ex_base_input [(''Speed_KMH'', Mul (Fin 2))]
       = estimate_impact ex_model ex_base_input []
   \<and> get_col (set_scalar ex_base_input ''Speed_KMH'' (F (Fin 60))) ''Speed_KMH'' = Inr [F (Fin 60)]"
proof -
  have a: "\<not> has_col ex_base_input ''Speed_KMH''"
    by (simp add: ex_base_input_def has_col_def)
  have b: "replicate (nrows ex_base_input) (F (Fin 60)) = [F (Fin 60)]"
    by (simp add: ex_base_input_def)
  from scale_of_absent_column_ignored [OF a, of "Fin 2" ex_model "F (Fin 60)"] a b
  show ?thesis by simp
qed

text \<open>
  C9: the list \<open>generate_corrective_actions\<close> returns is sorted by priority, ascending:
  its priorities are 1, 2, 3, or 2, 3 when no route was ranked and the first action was
  not built; this holds for every collaborator, absent, answering or raising. The
  final sort puts any three actions of priorities 1, 2 and 3 in that order, in whatever
  order they were built.
\<close>

theorem actions_sorted_by_priority:
  "(\<forall>acts. generate_corrective_actions ranking df m base crew = Inr acts \<longrightarrow>
      sorted (map priority acts)
      \<and> (map priority acts = [1, 2, 3] \<or> map priority acts = [2, 3])
      \<and> (length acts = 3 \<longrightarrow> map priority acts = [1, 2, 3]))
   \<and> (\<forall>xs. length xs = 3 \<longrightarrow> set (map priority xs) = {1, 2, 3}
        \<longrightarrow> map priority (sort_key priority xs) = [1, 2, 3])"
proof -
  have A: "sorted (map priority acts)
      \<and> (map priority acts = [1, 2, 3] \<or> map priority acts = [2, 3])
      \<and> (length acts = 3 \<longrightarrow> map priority acts = [1, 2, 3])"
    if "generate_corrective_actions ranking df m base crew = Inr acts" for acts
  proof -
    from generate_corrective_actions_Inr [OF that]
    obtain actions1 s f where
      acts: "acts = sort_key priority (enrich crew (actions1 @ [shift_action s, fuel_action f]))"
      and a1: "actions1 = [] \<or> (\<exists>r e. actions1 = [reroute_action r e])"
      by blast
    let ?built = "enrich crew (actions1 @ [shift_action s, fuel_action f])"
    have p: "map priority ?built = [2, 3] \<or> map priority ?built = [1, 2, 3]"
      using a1 by (auto simp: priority_enrich shift_action_def fuel_action_def reroute_action_def)
    then have "sorted (map priority ?built)" by auto
    then have "acts = ?built" unfolding acts by (rule sort_key_id_if_sorted)
    then show ?thesis using p by auto
  qed
  show ?thesis using A sort_three_priorities by blast
qed

theorem actions_sorted_by_priority_witness:
  "generate_corrective_actions ex_ranking ex_orders stub_wrapper ex_base_input (Some ex_crew)
     = Inr ex_actions
   \<and> length ex_actions = 3 \<and> map priority ex_actions = [1, 2, 3]
   \<and> length ex_shuffled = 3 \<and> set (map priority ex_shuffled) = {1, 2, 3}
   \<and> map priority ex_shuffled = [3, 1, 2]
   \<and> map priority (sort_key priority ex_shuffled) = [1, 2, 3]"
proof -
  have p: "stub_wrapper (Frame (set_col ex_base_input c xs)) = Inr [Fin 0]"
    if "length xs = 1" for c xs
  proof -
    have "rect (set_col ex_base_input c xs)"
      using that by (simp add: rect_def ex_base_input_def)
    moreover have "derive_fuel_per_km (set_col ex_base_input c xs)
        = Inr (set_col ex_base_input c xs)"
      by (simp add: derive_fuel_per_km_def has_col_def ex_base_input_def)
    ultimately show ?thesis
      using stub_wrapper_frame [of "set_col ex_base_input c xs"] by (simp add: ex_base_input_def)
  qed
  have q: "stub_wrapper (Frame ex_base_input) = Inr [Fin 0]"
  proof -
    have "rect ex_base_input"
      by (rule wf_table_rect) (simp add: wf_table_def ex_base_input_def)
    moreover have "derive_fuel_per_km ex_base_input = Inr ex_base_input"
      by (simp add: derive_fuel_per_km_def has_col_def ex_base_input_def)
    ultimately show ?thesis
      using stub_wrapper_frame [of ex_base_input] by (simp add: ex_base_input_def)
  qed
  have e1: "estimate_impact stub_wrapper ex_base_input [(''Distance_KM'', Mul (Fin (9 / 10)))]
              = Inr (Fin 0)"
    using q p [of "[F (Fin 450)]" "''Distance_KM''"]
    by (simp add: estimate_impact_def first_prediction_def has_col_def num_col_def get_col_def
        py_max_def fsub_def ex_base_input_def)
  have e2: "estimate_impact stub_wrapper ex_base_input [(''Weather_Impact_Num'', SetTo (F (Fin 0)))]
              = Inr (Fin 0)"
    using q p [of "[F (Fin 0)]" "''Weather_Impact_Num''"]
    by (simp add: estimate_impact_def first_prediction_def set_scalar_def py_max_def fsub_def
        ex_base_input_def)
  have e3: "estimate_impact stub_wrapper ex_base_input [(''Fuel_per_KM'', Mul (Fin (85 / 100)))]
              = Inr (Fin 0)"
    using q p [of "[F (Fin (17 / 100))]" "''Fuel_per_KM''"]
    by (simp add: estimate_impact_def first_prediction_def has_col_def num_col_def get_col_def
        py_max_def fsub_def ex_base_input_def)
  have w: "shifted_weather ex_base_input = Inr 0"
    by (simp add: shifted_weather_def ex_base_input_def)
  have r: "round1 (Fin 0) = Fin 0"
    by (simp add: round_half_even_def)
  have a: "generate_corrective_actions ex_ranking ex_orders stub_wrapper ex_base_input (Some ex_crew)
             = Inr ex_actions"
  proof -
    have "sorted (map priority ex_actions)"
      by (simp add: ex_actions_def priority_enrich reroute_action_def shift_action_def
          fuel_action_def)
    then have "sort_key priority ex_actions = ex_actions"
      by (rule sort_key_id_if_sorted)
    then show ?thesis
      using e1 e2 e3 w
      by (simp add: generate_corrective_actions_def ex_ranking_def ex_actions_def Let_def)
  qed
  have b: "length ex_actions = 3" "map priority ex_actions = [1, 2, 3]"
    by (simp_all add: ex_actions_def enrich_def ex_crew_def reroute_action_def shift_action_def
        fuel_action_def)
  have c: "length ex_shuffled = 3" "set (map priority ex_shuffled) = {1, 2, 3}"
    "map priority ex_shuffled = [3, 1, 2]"
    by (auto simp: ex_shuffled_def reroute_action_def shift_action_def fuel_action_def)
  note main = actions_sorted_by_priority
    [of ex_ranking ex_orders stub_wrapper ex_base_input "Some ex_crew"]
  from main c(1,2) have d: "map priority (sort_key priority ex_shuffled) = [1, 2, 3]"
    by blast
  from main a b c d show ?thesis by simp
qed

section \<open>Properties of the Dataset Merger\<close>




end
